theory Spec2Isabelle
  imports Complex_Main "HOL-Library.Char_ord" "HOL-Library.List_Lexorder"
    "HOL-Library.Product_Lexorder"
begin

section \<open>Values, errors and tables\<close>

text \<open>
  The feature component works on two pandas data frames. A cell of a frame is dynamically
  typed: a number, one of the two infinities that a division can produce, the missing
  value (pandas uses the same sentinel, NaN, for "missing" and for "not a number"), a text,
  or a list. Numbers are exact rationals: int64 and float64 are not told apart and the
  rounding error of float64 arithmetic is not part of the model, nor is the sign of zero.
\<close>

datatype cell = Num rat | PInf | NInf | Null | Str string | Lst "cell list"

text \<open>The Python exceptions that the modelled operations can raise.\<close>

datatype error = KeyError | TypeError | ValueError | IndexError | AttributeError
  | ZeroDivisionError

text \<open>
  A data frame, column-major as pandas stores it: the number of rows (the length of the
  index) and the columns in order, each a name with its cells.
\<close>

record table =
  nrows :: nat
  columns :: "(string \<times> cell list) list"

definition col_names :: "table \<Rightarrow> string list" where
  "col_names t = map fst (columns t)"

text \<open>\<open>df[a]\<close>: the column named \<open>a\<close>, KeyError when there is none.\<close>

definition get_col :: "table \<Rightarrow> string \<Rightarrow> error + cell list" where
  "get_col t a = (case map_of (columns t) a of None \<Rightarrow> Inl KeyError | Some xs \<Rightarrow> Inr xs)"

text \<open>\<open>df[a] = xs\<close>: overwrite the column in place, or append it as the last column.\<close>

definition set_col :: "table \<Rightarrow> string \<Rightarrow> cell list \<Rightarrow> table" where
  "set_col t a xs =
     (if a \<in> set (col_names t)
      then t\<lparr>columns := map (\<lambda>(n, ys). if n = a then (n, xs) else (n, ys)) (columns t)\<rparr>
      else t\<lparr>columns := columns t @ [(a, xs)]\<rparr>)"

text \<open>\<open>df.drop(features, axis=1)\<close>: every label must name a column.\<close>

definition drop_cols :: "table \<Rightarrow> string list \<Rightarrow> error + table" where
  "drop_cols t fs =
     (if list_all (\<lambda>f. f \<in> set (col_names t)) fs
      then Inr (t\<lparr>columns := filter (\<lambda>(n, ys). n \<notin> set fs) (columns t)\<rparr>)
      else Inl KeyError)"

text \<open>
  \<open>df.append(other)\<close>: the rows of \<open>other\<close> below those of \<open>df\<close>, over the union of
  the columns; a column that one frame lacks is missing (Null) in that frame's rows. The
  columns of \<open>df\<close> come first (pandas may sort them; no operation here reads the order).
\<close>

definition col_or_null :: "table \<Rightarrow> string \<Rightarrow> cell list" where
  "col_or_null t a =
     (case map_of (columns t) a of None \<Rightarrow> replicate (nrows t) Null | Some xs \<Rightarrow> xs)"

definition append :: "table \<Rightarrow> table \<Rightarrow> table" where
  "append t u =
     \<lparr>nrows = nrows t + nrows u,
      columns =
        map (\<lambda>(n, xs). (n, xs @ col_or_null u n)) (columns t) @
        map (\<lambda>(n, ys). (n, replicate (nrows t) Null @ ys))
          (filter (\<lambda>(n, ys). n \<notin> set (col_names t)) (columns u))\<rparr>"

text \<open>Positional row slices \<open>df[0:n]\<close> and \<open>df[n::]\<close>.\<close>

definition head_rows :: "nat \<Rightarrow> table \<Rightarrow> table" where
  "head_rows n t = \<lparr>nrows = min n (nrows t), columns = map (\<lambda>(c, xs). (c, take n xs)) (columns t)\<rparr>"

definition tail_rows :: "nat \<Rightarrow> table \<Rightarrow> table" where
  "tail_rows n t = \<lparr>nrows = nrows t - n, columns = map (\<lambda>(c, xs). (c, drop n xs)) (columns t)\<rparr>"

text \<open>A list of results is a result: the first exception, or all the values.\<close>

fun collect :: "(error + 'a) list \<Rightarrow> error + 'a list" where
  "collect [] = Inr []"
| "collect (r # rs) =
     (case r of
        Inl e \<Rightarrow> Inl e
      | Inr y \<Rightarrow> (case collect rs of Inl e \<Rightarrow> Inl e | Inr ys \<Rightarrow> Inr (y # ys)))"

text \<open>\<open>Series.apply(f)\<close>: the function on every cell in row order.\<close>

definition apply_cells :: "(cell \<Rightarrow> error + cell) \<Rightarrow> cell list \<Rightarrow> error + cell list" where
  "apply_cells f xs = collect (map f xs)"

text \<open>
  An element-wise operator on two columns of one frame, which have one cell for each row
  of the frame.
\<close>

definition zip_cells ::
  "(cell \<Rightarrow> cell \<Rightarrow> error + cell) \<Rightarrow> cell list \<Rightarrow> cell list \<Rightarrow> error + cell list" where
  "zip_cells f xs ys = collect (map (\<lambda>(x, y). f x y) (zip xs ys))"

section \<open>Arithmetic on cells\<close>

text \<open>
  The arithmetic of pandas on one pair of cells. A missing operand gives a missing result.
  Numbers follow IEEE 754 on the extended line: an undefined result is NaN, which is the
  missing value. \<open>+\<close> also joins two texts or two lists, as Python does; any other
  combination raises TypeError (Python's repetition of a text or a list under \<open>*\<close> needs
  an integer, which the cells do not tell apart from a float, and is left out).
\<close>

fun add_cell :: "cell \<Rightarrow> cell \<Rightarrow> error + cell" where
  "add_cell Null _ = Inr Null"
| "add_cell _ Null = Inr Null"
| "add_cell (Num x) (Num y) = Inr (Num (x + y))"
| "add_cell (Num x) PInf = Inr PInf"
| "add_cell (Num x) NInf = Inr NInf"
| "add_cell PInf (Num y) = Inr PInf"
| "add_cell NInf (Num y) = Inr NInf"
| "add_cell PInf PInf = Inr PInf"
| "add_cell NInf NInf = Inr NInf"
| "add_cell PInf NInf = Inr Null"
| "add_cell NInf PInf = Inr Null"
| "add_cell (Str s) (Str t) = Inr (Str (s @ t))"
| "add_cell (Lst xs) (Lst ys) = Inr (Lst (xs @ ys))"
| "add_cell _ _ = Inl TypeError"

fun neg_cell :: "cell \<Rightarrow> error + cell" where
  "neg_cell (Num x) = Inr (Num (- x))"
| "neg_cell PInf = Inr NInf"
| "neg_cell NInf = Inr PInf"
| "neg_cell Null = Inr Null"
| "neg_cell _ = Inl TypeError"

fun is_number :: "cell \<Rightarrow> bool" where
  "is_number (Num x) = True"
| "is_number PInf = True"
| "is_number NInf = True"
| "is_number Null = True"
| "is_number _ = False"

definition sub_cell :: "cell \<Rightarrow> cell \<Rightarrow> error + cell" where
  "sub_cell a b =
     (if is_number a \<and> is_number b
      then (case neg_cell b of Inl e \<Rightarrow> Inl e | Inr nb \<Rightarrow> add_cell a nb)
      else if a = Null \<or> b = Null then Inr Null else Inl TypeError)"

text \<open>The sign of a number cell: \<open>-1\<close>, \<open>0\<close> or \<open>1\<close>.\<close>

fun sign_cell :: "cell \<Rightarrow> int" where
  "sign_cell (Num x) = (if x < 0 then - 1 else if x = 0 then 0 else 1)"
| "sign_cell PInf = 1"
| "sign_cell NInf = - 1"
| "sign_cell _ = 0"

definition signed_inf :: "int \<Rightarrow> cell" where
  "signed_inf s = (if s < 0 then NInf else if s = 0 then Null else PInf)"

fun mul_cell :: "cell \<Rightarrow> cell \<Rightarrow> error + cell" where
  "mul_cell Null _ = Inr Null"
| "mul_cell _ Null = Inr Null"
| "mul_cell (Num x) (Num y) = Inr (Num (x * y))"
| "mul_cell (Str s) _ = Inl TypeError"
| "mul_cell _ (Str s) = Inl TypeError"
| "mul_cell (Lst xs) _ = Inl TypeError"
| "mul_cell _ (Lst xs) = Inl TypeError"
| "mul_cell a b = Inr (signed_inf (sign_cell a * sign_cell b))"

text \<open>
  True division (the module imports \<open>division\<close> from \<open>__future__\<close>). A finite number
  over zero is plus or minus infinity by its sign, and zero over zero is NaN.
\<close>

fun div_cell :: "cell \<Rightarrow> cell \<Rightarrow> error + cell" where
  "div_cell Null _ = Inr Null"
| "div_cell _ Null = Inr Null"
| "div_cell (Str s) _ = Inl TypeError"
| "div_cell _ (Str s) = Inl TypeError"
| "div_cell (Lst xs) _ = Inl TypeError"
| "div_cell _ (Lst xs) = Inl TypeError"
| "div_cell (Num x) (Num y) =
     (if y = 0 then Inr (signed_inf (sign_cell (Num x))) else Inr (Num (x / y)))"
| "div_cell (Num x) PInf = Inr (Num 0)"
| "div_cell (Num x) NInf = Inr (Num 0)"
| "div_cell PInf (Num y) = Inr (if y < 0 then NInf else PInf)"
| "div_cell NInf (Num y) = Inr (if y < 0 then PInf else NInf)"
| "div_cell _ _ = Inr Null"

text \<open>
  The comparison \<open>x > y\<close> of a numeric column with a number: false on a missing operand;
  a text or a list against a number raises TypeError.
\<close>

fun num_key :: "cell \<Rightarrow> nat \<times> rat" where
  "num_key NInf = (0, 0)"
| "num_key (Num x) = (1, x)"
| "num_key PInf = (2, 0)"
| "num_key _ = (3, 0)"

definition gt_cell :: "cell \<Rightarrow> cell \<Rightarrow> error + bool" where
  "gt_cell x y =
     (if is_number x \<and> is_number y
      then (if x = Null \<or> y = Null then Inr False else Inr (num_key y < num_key x))
      else Inl TypeError)"

definition lt_cell :: "cell \<Rightarrow> cell \<Rightarrow> error + bool" where
  "lt_cell x y = gt_cell y x"

section \<open>The shared data set\<close>

text \<open>
  Modelled from the spec: the class \<open>Base\<close> (module \<open>speedml.base\<close>) is not among the sources.
  It holds the state that every operation reads and writes: the train and test frames,
  the name of the target column, and the hook \<open>data_n\<close>, an opaque callback that
  resynchronises a derived numeric view. The model keeps the frames and the target, counts
  the calls of the hook, and records what the operations print.
\<close>

datatype message =
    Dropped int nat
  | Imputed nat nat
  | OutliersFixed nat rat

record dataset =
  train :: table
  test :: table
  target :: string
  data_n_calls :: nat
  printed :: "message list"

text \<open>
  Modelled from the spec: the hook \<open>data_n\<close> of \<open>Base\<close>, an opaque callback. All that
  the model keeps of a call is that it took place.
\<close>

definition data_n :: "dataset \<Rightarrow> dataset" where
  "data_n ds = ds\<lparr>data_n_calls := Suc (data_n_calls ds)\<rparr>"

section \<open>The operations of \<open>Feature\<close>\<close>

text \<open>\<open>drop\<close>: the message reports the number of dropped and of remaining train columns.\<close>

definition drop_features :: "string list \<Rightarrow> dataset \<Rightarrow> error + message \<times> dataset" where
  "drop_features features ds =
     (let start = length (columns (train ds)) in
      case drop_cols (train ds) features of
        Inl e \<Rightarrow> Inl e
      | Inr tr \<Rightarrow>
          (case drop_cols (test ds) features of
             Inl e \<Rightarrow> Inl e
           | Inr te \<Rightarrow>
               (let ds' = data_n (ds\<lparr>train := tr, test := te\<rparr>);
                    end = length (columns (train ds'))
                in Inr (Dropped (int start - int end) end, ds'))))"

text \<open>
  The shape shared by the operations that assign \<open>new\<close> from a computation on the
  frame: train first, then test, each computed from its own frame and then stored.
\<close>

definition assign_both ::
  "string \<Rightarrow> (table \<Rightarrow> error + cell list) \<Rightarrow> dataset \<Rightarrow> error + dataset" where
  "assign_both new f ds =
     (case f (train ds) of
        Inl e \<Rightarrow> Inl e
      | Inr xs \<Rightarrow>
          (case f (test ds) of
             Inl e \<Rightarrow> Inl e
           | Inr ys \<Rightarrow>
               Inr (ds\<lparr>train := set_col (train ds) new xs,
                       test := set_col (test ds) new ys\<rparr>)))"

definition on_result :: "('a \<Rightarrow> 'b) \<Rightarrow> error + 'a \<Rightarrow> error + 'b" where
  "on_result g r = (case r of Inl e \<Rightarrow> Inl e | Inr x \<Rightarrow> Inr (g x))"

text \<open>\<open>df[a] op df[b]\<close> for an element-wise operator.\<close>

definition binop_cols ::
  "(cell \<Rightarrow> cell \<Rightarrow> error + cell) \<Rightarrow> string \<Rightarrow> string \<Rightarrow> table \<Rightarrow> error + cell list" where
  "binop_cols f a b t =
     (case get_col t a of
        Inl e \<Rightarrow> Inl e
      | Inr xs \<Rightarrow> (case get_col t b of Inl e \<Rightarrow> Inl e | Inr ys \<Rightarrow> zip_cells f xs ys))"

text \<open>\<open>df[a].apply(f)\<close>.\<close>

definition apply_col :: "(cell \<Rightarrow> error + cell) \<Rightarrow> string \<Rightarrow> table \<Rightarrow> error + cell list" where
  "apply_col f a t = (case get_col t a of Inl e \<Rightarrow> Inl e | Inr xs \<Rightarrow> apply_cells f xs)"

definition sum_features :: "string \<Rightarrow> string \<Rightarrow> string \<Rightarrow> dataset \<Rightarrow> error + dataset" where
  "sum_features new a b ds = on_result data_n (assign_both new (binop_cols add_cell a b) ds)"

definition diff :: "string \<Rightarrow> string \<Rightarrow> string \<Rightarrow> dataset \<Rightarrow> error + dataset" where
  "diff new a b ds = on_result data_n (assign_both new (binop_cols sub_cell a b) ds)"

definition product_features :: "string \<Rightarrow> string \<Rightarrow> string \<Rightarrow> dataset \<Rightarrow> error + dataset" where
  "product_features new a b ds = on_result data_n (assign_both new (binop_cols mul_cell a b) ds)"

text \<open>
  \<open>divide\<close>: the quotient is stored in both frames, then in each frame the two infinities
  of the new column are replaced by 0, then the hook runs.
\<close>

definition replace_inf :: "cell list \<Rightarrow> cell list" where
  "replace_inf xs = map (\<lambda>c. if c = PInf \<or> c = NInf then Num 0 else c) xs"

definition divide_features :: "string \<Rightarrow> string \<Rightarrow> string \<Rightarrow> dataset \<Rightarrow> error + dataset" where
  "divide_features new a b ds =
     (case assign_both new (binop_cols div_cell a b) ds of
        Inl e \<Rightarrow> Inl e
      | Inr ds1 \<Rightarrow>
          on_result data_n (assign_both new (\<lambda>t. on_result replace_inf (get_col t new)) ds1))"

text \<open>
  \<open>round\<close>: numpy rounds a float64 number to \<open>precision\<close> decimals in float64
  arithmetic (it scales by the power of ten, rounds to the nearest integer and scales back,
  every step rounded to float64, with overflow to infinity). The exact numbers of the model
  do not express that, so the rounding of a number is a parameter. An infinity and the
  missing value stay as they are; a text or a list raises TypeError.
\<close>

fun round_cell :: "(int \<Rightarrow> rat \<Rightarrow> cell) \<Rightarrow> int \<Rightarrow> cell \<Rightarrow> error + cell" where
  "round_cell np_round p (Num x) = Inr (np_round p x)"
| "round_cell np_round p PInf = Inr PInf"
| "round_cell np_round p NInf = Inr NInf"
| "round_cell np_round p Null = Inr Null"
| "round_cell np_round p _ = Inl TypeError"

definition round_features ::
  "(int \<Rightarrow> rat \<Rightarrow> cell) \<Rightarrow> string \<Rightarrow> string \<Rightarrow> int \<Rightarrow> dataset \<Rightarrow> error + dataset" where
  "round_features np_round new a precision ds =
     on_result data_n (assign_both new (apply_col (round_cell np_round precision) a) ds)"

text \<open>
  \<open>concat\<close>: \<open>astype(str)\<close> leaves a text as it is and prints any other cell; how Python
  prints a number is not modelled, so the printing function is a parameter. The hook is
  not called.
\<close>

definition as_str :: "(cell \<Rightarrow> string) \<Rightarrow> cell \<Rightarrow> string" where
  "as_str repr c = (case c of Str s \<Rightarrow> s | _ \<Rightarrow> repr c)"

definition concat_features ::
  "(cell \<Rightarrow> string) \<Rightarrow> string \<Rightarrow> string \<Rightarrow> string \<Rightarrow> string \<Rightarrow> dataset \<Rightarrow> error + dataset" where
  "concat_features repr new a sep b ds =
     assign_both new
       (binop_cols (\<lambda>x y. Inr (Str (as_str repr x @ sep @ as_str repr y))) a b) ds"

text \<open>\<open>list_len\<close>: Python's \<open>len\<close> of a list or of a text; a number has no length.\<close>

fun len_cell :: "cell \<Rightarrow> error + cell" where
  "len_cell (Lst xs) = Inr (Num (of_nat (length xs)))"
| "len_cell (Str s) = Inr (Num (of_nat (length s)))"
| "len_cell _ = Inl TypeError"

definition list_len :: "string \<Rightarrow> string \<Rightarrow> dataset \<Rightarrow> error + dataset" where
  "list_len new a ds = on_result data_n (assign_both new (apply_col len_cell a) ds)"

text \<open>
  \<open>word_count\<close>: \<open>len(x.split(" "))\<close>. \<open>str.split\<close> with a separator cuts at every
  occurrence of the separator, so two adjacent separators enclose an empty piece and the
  empty text gives one empty piece. Only a text has the method \<open>split\<close>.
\<close>

fun split_at :: "char \<Rightarrow> string \<Rightarrow> string list" where
  "split_at sep [] = [[]]"
| "split_at sep (c # cs) =
     (if c = sep then [] # split_at sep cs
      else (case split_at sep cs of [] \<Rightarrow> [[c]] | w # ws \<Rightarrow> (c # w) # ws))"

fun word_count_cell :: "cell \<Rightarrow> error + cell" where
  "word_count_cell (Str s) = Inr (Num (of_nat (length (split_at (CHR '' '') s))))"
| "word_count_cell _ = Inl AttributeError"

definition word_count :: "string \<Rightarrow> string \<Rightarrow> dataset \<Rightarrow> error + dataset" where
  "word_count new a ds = on_result data_n (assign_both new (apply_col word_count_cell a) ds)"

text \<open>
  \<open>regex_extract\<close>: a regular expression enters the model as what \<open>re.search\<close> does with
  it on a text: no match, or a match together with the outcome of \<open>group(1)\<close> (the
  captured text, the missing value when the group took no part in the match, or IndexError
  when the expression has no group). Searching in a cell that is not a text raises
  TypeError. The result goes to \<open>new\<close> unless that is absent or empty. The hook is not
  called.
\<close>

type_synonym regex = "string \<Rightarrow> (error + cell) option"

definition regex_text :: "regex \<Rightarrow> cell \<Rightarrow> error + cell" where
  "regex_text regex text =
     (case text of
        Str s \<Rightarrow> (case regex s of Some g \<Rightarrow> g | None \<Rightarrow> Inr (Str []))
      | _ \<Rightarrow> Inl TypeError)"

definition regex_extract :: "string \<Rightarrow> regex \<Rightarrow> string option \<Rightarrow> dataset \<Rightarrow> error + dataset" where
  "regex_extract a regex new ds =
     assign_both (case new of None \<Rightarrow> a | Some n \<Rightarrow> if n = [] then a else n)
       (apply_col (regex_text regex) a) ds"

text \<open>
  \<open>density\<close>: \<open>value_counts\<close> counts every value of the train column that is not missing
  (a list cannot be counted: it is not hashable); \<open>min\<close> of no counts at all is NaN.
  \<open>dvals.get(x, vals.min())\<close> is the count of \<open>x\<close>, or the least count when \<open>x\<close> is
  not a key.
\<close>

fun hashable :: "cell \<Rightarrow> bool" where
  "hashable (Lst xs) = False"
| "hashable _ = True"

definition value_counts :: "cell list \<Rightarrow> error + (cell \<times> nat) list" where
  "value_counts xs =
     (if list_all hashable xs
      then Inr (map (\<lambda>v. (v, count_list xs v)) (remdups (filter (\<lambda>x. x \<noteq> Null) xs)))
      else Inl TypeError)"

definition counts_min :: "(cell \<times> nat) list \<Rightarrow> cell" where
  "counts_min vals = (case map snd vals of [] \<Rightarrow> Null | c # cs \<Rightarrow> Num (of_nat (fold min cs c)))"

definition dict_get :: "(cell \<times> nat) list \<Rightarrow> cell \<Rightarrow> cell \<Rightarrow> error + cell" where
  "dict_get d x dflt =
     (if hashable x
      then (case map_of d x of None \<Rightarrow> Inr dflt | Some n \<Rightarrow> Inr (Num (of_nat n)))
      else Inl TypeError)"

definition density :: "string \<Rightarrow> dataset \<Rightarrow> error + dataset" where
  "density a ds =
     (case get_col (train ds) a of
        Inl e \<Rightarrow> Inl e
      | Inr xs \<Rightarrow>
          (case value_counts xs of
             Inl e \<Rightarrow> Inl e
           | Inr vals \<Rightarrow>
               on_result data_n
                 (assign_both (a @ ''_density'')
                    (apply_col (\<lambda>x. dict_get vals x (counts_min vals)) a) ds)))"

text \<open>
  \<open>ordinal_to_numeric\<close>: \<open>map_to_numbers[x]\<close> on a Python dictionary raises KeyError when
  \<open>x\<close> is not a key, and TypeError when \<open>x\<close> is a list.
\<close>

definition dict_lookup :: "(cell \<rightharpoonup> cell) \<Rightarrow> cell \<Rightarrow> error + cell" where
  "dict_lookup m x =
     (if hashable x then (case m x of None \<Rightarrow> Inl KeyError | Some v \<Rightarrow> Inr v)
      else Inl TypeError)"

definition ordinal_to_numeric :: "string \<Rightarrow> (cell \<rightharpoonup> cell) \<Rightarrow> dataset \<Rightarrow> error + dataset" where
  "ordinal_to_numeric a map_to_numbers ds =
     on_result data_n (assign_both a (apply_col (dict_lookup map_to_numbers) a) ds)"

text \<open>
  \<open>np.percentile(values, q)\<close> with its default linear interpolation: \<open>q\<close> must lie in
  \<open>[0, 100]\<close>; the values are sorted, the rank \<open>q / 100 * (n - 1)\<close> is split into its
  integer part \<open>i\<close> and its fraction, and the result lies at that fraction between the
  values of rank \<open>i\<close> and \<open>i + 1\<close>. A NaN among the values makes the result NaN, a text
  or a list raises TypeError; with an infinity among the values the result is what the
  interpolation formula gives in the arithmetic of the cells. Of no values at all numpy
  either raises IndexError or returns NaN, depending on its version; the caller then fails
  in its division by the number of rows, so the model raises in both cases.
\<close>

definition lerp :: "cell \<Rightarrow> cell \<Rightarrow> rat \<Rightarrow> error + cell" where
  "lerp a b t =
     (case sub_cell b a of
        Inl e \<Rightarrow> Inl e
      | Inr d \<Rightarrow> (case mul_cell d (Num t) of Inl e \<Rightarrow> Inl e | Inr m \<Rightarrow> add_cell a m))"

definition percentile :: "cell list \<Rightarrow> rat \<Rightarrow> error + cell" where
  "percentile vs q =
     (if q < 0 \<or> 100 < q then Inl ValueError
      else if list_ex (\<lambda>v. \<not> is_number v) vs then Inl TypeError
      else if vs = [] then Inl IndexError
      else if list_ex (\<lambda>v. v = Null) vs then Inr Null
      else
        (let s = sort_key num_key vs;
             n = length s;
             pos = q / 100 * of_nat (n - 1);
             i = nat \<lfloor>pos\<rfloor>
         in lerp (s ! i) (s ! min (i + 1) (n - 1)) (pos - of_int \<lfloor>pos\<rfloor>)))"

text \<open>
  \<open>outliers_fix\<close>: each branch is guarded by the truth value of its argument, and Python
  takes both \<open>None\<close> and \<open>0\<close> for false. A branch computes the percentile of the train
  column, counts the rows beyond it, overwrites exactly those rows with it, calls the hook
  and prints the count and the percentage.
\<close>

definition fix_beyond ::
  "(cell \<Rightarrow> cell \<Rightarrow> error + bool) \<Rightarrow> string \<Rightarrow> rat \<Rightarrow> dataset \<Rightarrow> error + dataset" where
  "fix_beyond beyond a q ds =
     (case get_col (train ds) a of
        Inl e \<Rightarrow> Inl e
      | Inr xs \<Rightarrow>
          (case percentile xs q of
             Inl e \<Rightarrow> Inl e
           | Inr bound \<Rightarrow>
               (case collect (map (\<lambda>x. beyond x bound) xs) of
                  Inl e \<Rightarrow> Inl e
                | Inr hits \<Rightarrow>
                    (let change = length (filter (\<lambda>m. m) hits);
                         tr = set_col (train ds) a
                                (map (\<lambda>(x, m). if m then bound else x) (zip xs hits));
                         ds1 = data_n (ds\<lparr>train := tr\<rparr>)
                     in if nrows tr = 0 then Inl ZeroDivisionError
                        else Inr (ds1\<lparr>printed := printed ds1 @
                               [OutliersFixed change (of_nat change / of_nat (nrows tr) * 100)]\<rparr>)))))"

definition outliers_fix :: "string \<Rightarrow> rat option \<Rightarrow> rat option \<Rightarrow> dataset \<Rightarrow> error + dataset" where
  "outliers_fix a lower upper ds =
     (case (case upper of
              None \<Rightarrow> Inr ds
            | Some u \<Rightarrow> if u = 0 then Inr ds else fix_beyond gt_cell a u ds) of
        Inl e \<Rightarrow> Inl e
      | Inr ds1 \<Rightarrow>
          (case lower of
             None \<Rightarrow> Inr ds1
           | Some l \<Rightarrow> if l = 0 then Inr ds1 else fix_beyond lt_cell a l ds1))"

text \<open>
  \<open>LabelEncoder.fit_transform\<close> (scikit-learn): the classes are the distinct values in
  ascending order, with the missing value as the last class, and every value is replaced
  by the position of its class. The values must be uniformly texts or uniformly numbers,
  the missing value aside: texts are ordered as Python orders them, numbers by size; a
  column that mixes texts with numbers, or holds a list, raises TypeError.
\<close>

fun index_of :: "'a \<Rightarrow> 'a list \<Rightarrow> nat" where
  "index_of x [] = 0"
| "index_of x (y # ys) = (if x = y then 0 else Suc (index_of x ys))"

definition unique_inverse :: "'a::linorder list \<Rightarrow> nat list" where
  "unique_inverse ys = (let classes = sort (remdups ys) in map (\<lambda>y. index_of y classes) ys)"

fun text_or_missing :: "cell \<Rightarrow> bool" where
  "text_or_missing (Str s) = True"
| "text_or_missing Null = True"
| "text_or_missing _ = False"

fun text_key :: "cell \<Rightarrow> nat \<times> string" where
  "text_key (Str s) = (0, s)"
| "text_key _ = (1, [])"

definition fit_transform :: "cell list \<Rightarrow> error + cell list" where
  "fit_transform ys =
     (if list_all text_or_missing ys
      then Inr (map (\<lambda>k. Num (of_nat k)) (unique_inverse (map text_key ys)))
      else if list_all is_number ys
      then Inr (map (\<lambda>k. Num (of_nat k)) (unique_inverse (map num_key ys)))
      else Inl TypeError)"

fun encode_features :: "string list \<Rightarrow> table \<Rightarrow> error + table" where
  "encode_features [] t = Inr t"
| "encode_features (feature # features) t =
     (case get_col t feature of
        Inl e \<Rightarrow> Inl e
      | Inr xs \<Rightarrow>
          (case fit_transform xs of
             Inl e \<Rightarrow> Inl e
           | Inr ys \<Rightarrow> encode_features features (set_col t feature ys)))"

text \<open>
  \<open>labels\<close> and \<open>impute\<close> give the test frame a target column of \<open>-1\<close>, stack train on
  test, transform the stacked frame, cut it back at the number of train rows and drop the
  target from the test part.
\<close>

definition stack :: "dataset \<Rightarrow> table" where
  "stack ds =
     append (train ds)
       (set_col (test ds) (target ds) (replicate (nrows (test ds)) (Num (- 1))))"

definition unstack :: "table \<Rightarrow> dataset \<Rightarrow> error + dataset" where
  "unstack combine ds =
     (let tr = head_rows (nrows (train ds)) combine;
          te = tail_rows (nrows tr) combine
      in case drop_cols te [target ds] of
           Inl e \<Rightarrow> Inl e
         | Inr te' \<Rightarrow> Inr (data_n (ds\<lparr>train := tr, test := te'\<rparr>)))"

definition labels :: "string list \<Rightarrow> dataset \<Rightarrow> error + dataset" where
  "labels features ds =
     (case encode_features features (stack ds) of
        Inl e \<Rightarrow> Inl e
      | Inr combine \<Rightarrow> unstack combine ds)"

text \<open>
  The class \<open>DataFrameImputer\<close> (module \<open>speedml.util\<close>) is not among the sources; the
  definitions from here to \<open>DataFrameImputer_fit_transform\<close> follow the spec's sentence
  on \<open>impute\<close>: in each column the missing numeric values are replaced by the median of
  the column, and the missing text values by the most frequent value of the column.
\<close>

text \<open>Modelled from the spec: the median of the numbers of a column.\<close>

definition median :: "rat list \<Rightarrow> rat" where
  "median xs =
     (let s = sort xs; n = length s
      in if odd n then s ! (n div 2) else (s ! (n div 2 - 1) + s ! (n div 2)) / 2)"

text \<open>
  Modelled from the spec: a column is numeric when all its present values are finite
  numbers.
\<close>

fun is_finite :: "cell \<Rightarrow> bool" where
  "is_finite (Num x) = True"
| "is_finite _ = False"

text \<open>Modelled from the spec: the number that a cell of a numeric column holds.\<close>

fun rat_of_cell :: "cell \<Rightarrow> rat" where
  "rat_of_cell (Num x) = x"
| "rat_of_cell _ = 0"

text \<open>
  Modelled from the spec: the most frequent value of a column; among equally frequent
  values the one met first is taken (the spec leaves the choice open).
\<close>

fun most_frequent :: "cell list \<Rightarrow> cell list \<Rightarrow> cell \<Rightarrow> cell" where
  "most_frequent xs [] best = best"
| "most_frequent xs (v # vs) best =
     most_frequent xs vs (if count_list xs best < count_list xs v then v else best)"

text \<open>
  Modelled from the spec: the value that replaces the missing cells of a column, computed
  from its present cells; a column without any present cell has none, and stays as it is.
\<close>

definition fill_value :: "cell list \<Rightarrow> cell" where
  "fill_value xs =
     (case filter (\<lambda>x. x \<noteq> Null) xs of
        [] \<Rightarrow> Null
      | v # vs \<Rightarrow>
          if list_all is_finite (v # vs) then Num (median (map rat_of_cell (v # vs)))
          else most_frequent (v # vs) vs v)"

text \<open>Modelled from the spec: the missing cells of a column replaced.\<close>

definition impute_cells :: "cell list \<Rightarrow> cell list" where
  "impute_cells xs = (let fill = fill_value xs in map (\<lambda>x. if x = Null then fill else x) xs)"

text \<open>
  Modelled from the spec: \<open>DataFrameImputer().fit_transform\<close>, every column of the frame
  imputed on its own; the frame keeps its rows and its columns.
\<close>

definition DataFrameImputer_fit_transform :: "table \<Rightarrow> table" where
  "DataFrameImputer_fit_transform t =
     t\<lparr>columns := map (\<lambda>(n, xs). (n, impute_cells xs)) (columns t)\<rparr>"

text \<open>\<open>isnull().sum().sum()\<close>: the number of missing cells of a frame.\<close>

definition count_null :: "table \<Rightarrow> nat" where
  "count_null t = length (filter (\<lambda>x. x = Null) (concat (map snd (columns t))))"

definition impute :: "dataset \<Rightarrow> error + message \<times> dataset" where
  "impute ds =
     (let start = count_null (train ds) in
      case unstack (DataFrameImputer_fit_transform (stack ds)) ds of
        Inl e \<Rightarrow> Inl e
      | Inr ds' \<Rightarrow> Inr (Imputed start (count_null (train ds')), ds'))"

section \<open>Calls of the component\<close>

text \<open>
  One value for each way of calling the component, and the function that carries a call
  out. The messages that \<open>drop\<close> and \<open>impute\<close> return are left out of the result here.
  The two functions that the model takes from outside come with it: how \<open>astype(str)\<close>
  prints a cell that is not a text, and how numpy rounds a number to a number of decimals.
\<close>

datatype call =
    Drop "string list"
  | Impute
  | Ordinal_to_numeric string "cell \<rightharpoonup> cell"
  | Outliers_fix string "rat option" "rat option"
  | Density string
  | Sum string string string
  | Diff string string string
  | Product string string string
  | Divide string string string
  | Round string string int
  | Concat string string string string
  | List_len string string
  | Word_count string string
  | Regex_extract string regex "string option"
  | Labels "string list"

record externals =
  astype_str :: "cell \<Rightarrow> string"
  around :: "int \<Rightarrow> rat \<Rightarrow> cell"

fun run :: "externals \<Rightarrow> call \<Rightarrow> dataset \<Rightarrow> error + dataset" where
  "run ext (Drop features) ds = on_result snd (drop_features features ds)"
| "run ext Impute ds = on_result snd (impute ds)"
| "run ext (Ordinal_to_numeric a m) ds = ordinal_to_numeric a m ds"
| "run ext (Outliers_fix a lower upper) ds = outliers_fix a lower upper ds"
| "run ext (Density a) ds = density a ds"
| "run ext (Sum new a b) ds = sum_features new a b ds"
| "run ext (Diff new a b) ds = diff new a b ds"
| "run ext (Product new a b) ds = product_features new a b ds"
| "run ext (Divide new a b) ds = divide_features new a b ds"
| "run ext (Round new a precision) ds = round_features (around ext) new a precision ds"
| "run ext (Concat new a sep b) ds = concat_features (astype_str ext) new a sep b ds"
| "run ext (List_len new a) ds = list_len new a ds"
| "run ext (Word_count new a) ds = word_count new a ds"
| "run ext (Regex_extract a regex new) ds = regex_extract a regex new ds"
| "run ext (Labels features) ds = labels features ds"

text \<open>The name under which a call stores a column that it creates, if it creates one.\<close>

fun new_column :: "call \<Rightarrow> string option" where
  "new_column (Density a) = Some (a @ ''_density'')"
| "new_column (Sum new a b) = Some new"
| "new_column (Diff new a b) = Some new"
| "new_column (Product new a b) = Some new"
| "new_column (Divide new a b) = Some new"
| "new_column (Round new a precision) = Some new"
| "new_column (Concat new a sep b) = Some new"
| "new_column (List_len new a) = Some new"
| "new_column (Word_count new a) = Some new"
| "new_column (Regex_extract a regex new) =
     (case new of None \<Rightarrow> None | Some n \<Rightarrow> if n = [] then None else Some n)"
| "new_column _ = None"

text \<open>
  How often a call that completes is to run the hook: never for \<open>concat\<close> and
  \<open>regex_extract\<close>, once for each branch taken by \<open>outliers_fix\<close>, once otherwise.
\<close>

fun branch_taken :: "rat option \<Rightarrow> nat" where
  "branch_taken None = 0"
| "branch_taken (Some q) = (if q = 0 then 0 else 1)"

fun hook_calls :: "call \<Rightarrow> nat" where
  "hook_calls (Concat new a sep b) = 0"
| "hook_calls (Regex_extract a regex new) = 0"
| "hook_calls (Outliers_fix a lower upper) = branch_taken upper + branch_taken lower"
| "hook_calls _ = 1"

section \<open>Properties of the data set\<close>

text \<open>A frame is well formed when every column has one cell for each row.\<close>

definition wf_table :: "table \<Rightarrow> bool" where
  "wf_table t = list_all (\<lambda>(n, xs). length xs = nrows t) (columns t)"

text \<open>
  The schema invariant: train has the target column, and test has exactly the columns of
  train other than the target.
\<close>

definition synced :: "dataset \<Rightarrow> bool" where
  "synced ds =
     (target ds \<in> set (col_names (train ds)) \<and>
      set (col_names (test ds)) = set (col_names (train ds)) - {target ds})"

text \<open>All the cells of the column \<open>f\<close>: those of train, then those of test.\<close>

definition cells_of :: "dataset \<Rightarrow> string \<Rightarrow> cell list" where
  "cells_of ds f =
     (case map_of (columns (train ds)) f of None \<Rightarrow> [] | Some xs \<Rightarrow> xs) @
     (case map_of (columns (test ds)) f of None \<Rightarrow> [] | Some ys \<Rightarrow> ys)"

text \<open>
  Two columns of equal length agree in their pattern when any two rows hold equal cells
  in the one exactly if they hold equal cells in the other.
\<close>

definition same_pattern :: "cell list \<Rightarrow> cell list \<Rightarrow> bool" where
  "same_pattern xs ys =
     (length ys = length xs \<and>
      (\<forall>i<length xs. \<forall>j<length xs. (ys ! i = ys ! j) = (xs ! i = xs ! j)))"

text \<open>
  A column that \<open>LabelEncoder\<close> accepts: uniformly texts or uniformly numbers, the
  missing value aside.
\<close>

definition encodable :: "cell list \<Rightarrow> bool" where
  "encodable xs = (list_all text_or_missing xs \<or> list_all is_number xs)"

text \<open>
  The cells of the column \<open>f\<close> that \<open>labels\<close> encodes together: those of train, then
  those of test, and for the target column, which test lacks, the placeholder \<open>-1\<close> for
  each row of test.
\<close>

definition combined_cells :: "dataset \<Rightarrow> string \<Rightarrow> cell list" where
  "combined_cells ds f =
     cells_of ds f @ (if f = target ds then replicate (nrows (test ds)) (Num (- 1)) else [])"

text \<open>An integer code: a cell that holds a natural number.\<close>

fun is_code :: "cell \<Rightarrow> bool" where
  "is_code (Num x) = (0 \<le> x \<and> of_int \<lfloor>x\<rfloor> = x)"
| "is_code _ = False"

text \<open>The least frequency of a present value in a column.\<close>

definition min_frequency :: "cell list \<Rightarrow> nat" where
  "min_frequency xs = Min (count_list xs ` (set xs - {Null}))"



text \<open>
  What \<open>density\<close> is to store for a value \<open>v\<close>, given the train column: the
  frequency of a present value that occurs in the train column, otherwise the least
  frequency, which is NaN when the train column has no present value at all.
\<close>

definition frequency :: "cell list \<Rightarrow> cell \<Rightarrow> cell" where
  "frequency xs v =
     (if v \<noteq> Null \<and> v \<in> set xs then Num (of_nat (count_list xs v))
      else if set xs - {Null} = {} then Null
      else Num (of_nat (min_frequency xs)))"

text \<open>The number of whitespace-separated words of a text, as \<open>len(x.split())\<close> counts them.\<close>

definition is_space :: "char \<Rightarrow> bool" where
  "is_space c = (c \<in> set [CHR '' '', CHR 0x09, CHR 0x0A, CHR 0x0B, CHR 0x0C, CHR 0x0D])"

fun count_words :: "bool \<Rightarrow> string \<Rightarrow> nat" where
  "count_words in_word [] = 0"
| "count_words in_word (c # cs) =
     (if is_space c then count_words False cs
      else if in_word then count_words True cs
      else Suc (count_words True cs))"

section \<open>Example data sets\<close>

text \<open>Two numeric features and the target \<open>y\<close>.\<close>

definition example :: dataset where
  "example =
     \<lparr>train = \<lparr>nrows = 3, columns =
        [(''a'', [Num 0, Num 1, Num (- 2)]),
         (''b'', [Num 0, Num 0, Num 4]),
         (''y'', [Num 1, Num 0, Num 1])]\<rparr>,
      test = \<lparr>nrows = 2, columns =
        [(''a'', [Num 5, Num 0]),
         (''b'', [Num 2, Num 0])]\<rparr>,
      target = ''y'', data_n_calls = 0, printed = []\<rparr>"

text \<open>A text feature.\<close>

definition example_text :: dataset where
  "example_text =
     \<lparr>train = \<lparr>nrows = 3, columns =
        [(''t'', [Str ''big  house'', Str ''tent'', Str ''big  house'']),
         (''y'', [Num 1, Num 0, Num 1])]\<rparr>,
      test = \<lparr>nrows = 2, columns =
        [(''t'', [Str ''big  house'', Str ''igloo''])]\<rparr>,
      target = ''y'', data_n_calls = 0, printed = []\<rparr>"

text \<open>A feature with a missing value in train.\<close>

definition example_missing :: dataset where
  "example_missing =
     \<lparr>train = \<lparr>nrows = 3, columns =
        [(''c'', [Str ''x'', Str ''x'', Null]),
         (''y'', [Num 1, Num 0, Num 1])]\<rparr>,
      test = \<lparr>nrows = 2, columns =
        [(''c'', [Str ''x'', Str ''z''])]\<rparr>,
      target = ''y'', data_n_calls = 0, printed = []\<rparr>"

text \<open>An ordinal feature.\<close>

definition example_sizes :: dataset where
  "example_sizes =
     \<lparr>train = \<lparr>nrows = 2, columns =
        [(''size'', [Str ''S'', Str ''L'']),
         (''y'', [Num 1, Num 0])]\<rparr>,
      test = \<lparr>nrows = 2, columns =
        [(''size'', [Str ''M'', Str ''S''])]\<rparr>,
      target = ''y'', data_n_calls = 0, printed = []\<rparr>"



text \<open>A list-valued feature.\<close>

definition example_lists :: dataset where
  "example_lists =
     \<lparr>train = \<lparr>nrows = 2, columns =
        [(''l'', [Lst [Num 1, Num 2], Lst []]),
         (''y'', [Num 1, Num 0])]\<rparr>,
      test = \<lparr>nrows = 1, columns = [(''l'', [Lst [Num 3]])]\<rparr>,
      target = ''y'', data_n_calls = 0, printed = []\<rparr>"


text \<open>
  The text of a cell, and the empty text for a cell that is not a text: a printing function
  for the examples, where every printed cell is a text. With it a rounding function for
  the examples, which round nothing.
\<close>

fun text_of :: "cell \<Rightarrow> string" where
  "text_of (Str s) = s"
| "text_of _ = []"

definition example_externals :: externals where
  "example_externals = \<lparr>astype_str = text_of, around = (\<lambda>p x. Num x)\<rparr>"

section \<open>Column names under the frame operations\<close>

lemma get_col_names: "get_col t a = Inr xs \<Longrightarrow> a \<in> set (col_names t)"
  by (auto simp: get_col_def col_names_def split: option.splits dest!: map_of_SomeD intro: rev_image_eqI)

lemma map_fst_replace: "map fst (map (\<lambda>(n, ys). if n = a then (n, xs) else (n, ys)) cs) = map fst cs"
  by (induction cs) auto

lemma set_col_names_old: "a \<in> set (col_names t) \<Longrightarrow> col_names (set_col t a xs) = col_names t"
  by (simp add: set_col_def col_names_def map_fst_replace del: map_map)

lemma set_col_names_new: "a \<notin> set (col_names t) \<Longrightarrow> col_names (set_col t a xs) = col_names t @ [a]"
  by (simp add: set_col_def col_names_def)

lemma set_col_names: "set (col_names (set_col t a xs)) = insert a (set (col_names t))"
  by (cases "a \<in> set (col_names t)") (auto simp: set_col_names_old set_col_names_new)

lemma set_col_nrows: "nrows (set_col t a xs) = nrows t"
  by (simp add: set_col_def)

lemma drop_cols_names:
  "drop_cols t fs = Inr t' \<Longrightarrow> set (col_names t') = set (col_names t) - set fs \<and> set fs \<subseteq> set (col_names t)"
  by (auto simp: drop_cols_def col_names_def list_all_iff split: if_splits)

lemma on_result_Inr: "on_result g r = Inr y \<longleftrightarrow> (\<exists>x. r = Inr x \<and> y = g x)"
  by (auto simp: on_result_def split: sum.splits)

lemma assign_both_Inr:
  "assign_both new f ds = Inr ds' \<longleftrightarrow>
     (\<exists>xs ys. f (train ds) = Inr xs \<and> f (test ds) = Inr ys \<and>
        ds' = ds\<lparr>train := set_col (train ds) new xs, test := set_col (test ds) new ys\<rparr>)"
  by (auto simp: assign_both_def split: sum.splits)

lemma synced_data_n: "synced (data_n ds) = synced ds"
  by (simp add: synced_def data_n_def)

lemma synced_assign:
  assumes "synced ds" "assign_both new f ds = Inr ds'" "new \<noteq> target ds"
  shows "synced ds'"
proof -
  from assms(2) obtain xs ys where
    ds': "ds' = ds\<lparr>train := set_col (train ds) new xs, test := set_col (test ds) new ys\<rparr>"
    by (auto simp: assign_both_Inr)
  from assms(1) have a: "target ds \<in> set (col_names (train ds))"
    and b: "set (col_names (test ds)) = set (col_names (train ds)) - {target ds}"
    by (simp_all add: synced_def)
  have "insert new (set (col_names (test ds))) = insert new (set (col_names (train ds))) - {target ds}"
    using b assms(3) by blast
  with a show ?thesis by (simp add: ds' synced_def set_col_names)
qed

lemma synced_assign_hook:
  assumes "synced ds" "on_result data_n (assign_both new f ds) = Inr ds'" "new \<noteq> target ds"
  shows "synced ds'"
proof -
  from assms(2) obtain ds1 where 1: "assign_both new f ds = Inr ds1" and 2: "ds' = data_n ds1"
    by (auto simp: on_result_Inr)
  from assms(1) 1 assms(3) have "synced ds1" by (rule synced_assign)
  with 2 show ?thesis by (simp add: synced_data_n)
qed

lemma apply_col_Inr: "apply_col f a t = Inr ys \<Longrightarrow> a \<in> set (col_names t)"
  by (auto simp: apply_col_def split: sum.splits dest: get_col_names)

lemma synced_assign_old:
  assumes "synced ds" "assign_both a (apply_col f a) ds = Inr ds'"
  shows "synced ds'"
proof -
  from assms(2) obtain ys where "apply_col f a (test ds) = Inr ys"
    by (auto simp: assign_both_Inr)
  then have "a \<in> set (col_names (test ds))" by (rule apply_col_Inr)
  with assms(1) have "a \<noteq> target ds" by (auto simp: synced_def)
  with assms show ?thesis by (rule synced_assign)
qed

lemma synced_drop:
  assumes "synced ds" "drop_features fs ds = Inr (m, ds')"
  shows "synced ds'"
proof -
  from assms(2) obtain tr te where tr: "drop_cols (train ds) fs = Inr tr"
    and te: "drop_cols (test ds) fs = Inr te" and ds': "ds' = data_n (ds\<lparr>train := tr, test := te\<rparr>)"
    by (auto simp: drop_features_def Let_def split: sum.splits)
  from drop_cols_names[OF tr] drop_cols_names[OF te] assms(1) show ?thesis
    unfolding ds' synced_data_n by (auto simp: synced_def)
qed

lemma fix_beyond_names:
  assumes "fix_beyond cmp a q ds = Inr ds'"
  shows "col_names (train ds') = col_names (train ds) \<and> test ds' = test ds \<and> target ds' = target ds"
proof -
  from assms obtain xs where "get_col (train ds) a = Inr xs"
    by (auto simp: fix_beyond_def split: sum.splits)
  then have "a \<in> set (col_names (train ds))" by (rule get_col_names)
  with assms show ?thesis
    by (auto simp: fix_beyond_def Let_def data_n_def set_col_names_old split: sum.splits if_splits)
qed

lemma synced_cong:
  "col_names (train ds') = col_names (train ds) \<and> test ds' = test ds \<and> target ds' = target ds \<Longrightarrow> synced ds' = synced ds"
  by (simp add: synced_def)

lemma outliers_fix_names:
  assumes "outliers_fix a lower upper ds = Inr ds'"
  shows "col_names (train ds') = col_names (train ds) \<and> test ds' = test ds \<and> target ds' = target ds"
proof -
  from assms obtain ds1 where
    1: "(case upper of None \<Rightarrow> Inr ds | Some u \<Rightarrow> if u = 0 then Inr ds else fix_beyond gt_cell a u ds) = Inr ds1"
    and 2: "(case lower of None \<Rightarrow> Inr ds1 | Some l \<Rightarrow> if l = 0 then Inr ds1 else fix_beyond lt_cell a l ds1) = Inr ds'"
    by (auto simp: outliers_fix_def split: sum.splits)
  from 1 have "col_names (train ds1) = col_names (train ds) \<and> test ds1 = test ds \<and> target ds1 = target ds"
    by (auto split: option.splits if_splits dest: fix_beyond_names)
  moreover from 2 have "col_names (train ds') = col_names (train ds1) \<and> test ds' = test ds1 \<and> target ds' = target ds1"
    by (auto split: option.splits if_splits dest: fix_beyond_names)
  ultimately show ?thesis by simp
qed

lemma head_rows_names: "col_names (head_rows n t) = col_names t"
  by (auto simp: head_rows_def col_names_def)

lemma tail_rows_names: "col_names (tail_rows n t) = col_names t"
  by (auto simp: tail_rows_def col_names_def)

lemma synced_unstack:
  assumes "unstack combine ds = Inr ds'"
  shows "synced ds'"
proof -
  from assms obtain te where te: "drop_cols (tail_rows (nrows (head_rows (nrows (train ds)) combine)) combine) [target ds] = Inr te"
    and ds': "ds' = data_n (ds\<lparr>train := head_rows (nrows (train ds)) combine, test := te\<rparr>)"
    by (auto simp: unstack_def Let_def split: sum.splits)
  from drop_cols_names[OF te] show ?thesis
    unfolding ds' synced_data_n by (auto simp: synced_def head_rows_names tail_rows_names)
qed

lemma synced_divide:
  assumes "synced ds" "divide_features new a b ds = Inr ds'" "new \<noteq> target ds"
  shows "synced ds'"
proof -
  from assms(2) obtain ds1 where 1: "assign_both new (binop_cols div_cell a b) ds = Inr ds1"
    and 2: "on_result data_n (assign_both new (\<lambda>t. on_result replace_inf (get_col t new)) ds1) = Inr ds'"
    by (auto simp: divide_features_def split: sum.splits)
  from assms(1) 1 assms(3) have s1: "synced ds1" by (rule synced_assign)
  from 1 have "target ds1 = target ds" by (auto simp: assign_both_Inr)
  with assms(3) have "new \<noteq> target ds1" by simp
  with s1 2 show ?thesis by (rule synced_assign_hook)
qed

lemma synced_impute:
  assumes "impute ds = Inr (m, ds')"
  shows "synced ds'"
proof -
  from assms have "unstack (DataFrameImputer_fit_transform (stack ds)) ds = Inr ds'"
    by (simp add: impute_def Let_def split: sum.splits)
  then show ?thesis by (rule synced_unstack)
qed

lemma synced_labels:
  assumes "labels fs ds = Inr ds'"
  shows "synced ds'"
proof -
  from assms obtain combine where "unstack combine ds = Inr ds'"
    by (auto simp: labels_def split: sum.splits)
  then show ?thesis by (rule synced_unstack)
qed

lemma synced_ordinal:
  assumes "synced ds" "ordinal_to_numeric a m ds = Inr ds'"
  shows "synced ds'"
proof -
  from assms(2) obtain ds1 where 1: "assign_both a (apply_col (dict_lookup m) a) ds = Inr ds1"
    and 2: "ds' = data_n ds1"
    by (auto simp: ordinal_to_numeric_def on_result_Inr)
  from assms(1) 1 have "synced ds1" by (rule synced_assign_old)
  with 2 show ?thesis by (simp add: synced_data_n)
qed

lemma synced_outliers:
  assumes "synced ds" "outliers_fix a l u ds = Inr ds'"
  shows "synced ds'"
  using synced_cong[OF outliers_fix_names[OF assms(2)]] assms(1) by simp

lemma synced_density:
  assumes "synced ds" "density a ds = Inr ds'" "a @ ''_density'' \<noteq> target ds"
  shows "synced ds'"
proof -
  from assms(2) obtain f where
    "on_result data_n (assign_both (a @ ''_density'') f ds) = Inr ds'"
    by (auto simp: density_def split: sum.splits)
  with assms(1) show ?thesis using assms(3) by (rule synced_assign_hook)
qed

lemma synced_regex:
  assumes "synced ds" "regex_extract a regex new ds = Inr ds'"
    "new_column (Regex_extract a regex new) \<noteq> Some (target ds)"
  shows "synced ds'"
proof (cases "new_column (Regex_extract a regex new)")
  case None
  then have "regex_extract a regex new ds = assign_both a (apply_col (regex_text regex) a) ds"
    by (auto simp: regex_extract_def split: option.splits if_splits)
  with assms(1,2) show ?thesis by (simp add: synced_assign_old)
next
  case (Some n)
  then have "regex_extract a regex new ds = assign_both n (apply_col (regex_text regex) a) ds"
    by (auto simp: regex_extract_def split: option.splits if_splits)
  moreover from assms(3) Some have "n \<noteq> target ds" by simp
  ultimately show ?thesis using assms(1,2) by (simp add: synced_assign)
qed

lemma map_of_replace_same:
  "a \<in> fst ` set cs \<Longrightarrow>
   map_of (map (\<lambda>(n, ys). if n = a then (n, xs) else (n, ys)) cs) a = Some xs"
  by (induction cs) auto

lemma map_of_replace_other:
  "c \<noteq> a \<Longrightarrow>
   map_of (map (\<lambda>(n, ys). if n = a then (n, xs) else (n, ys)) cs) c = map_of cs c"
  by (induction cs) auto

lemma map_of_snoc_same: "a \<notin> fst ` set cs \<Longrightarrow> map_of (cs @ [(a, xs)]) a = Some xs"
  by (induction cs) auto

lemma map_of_snoc_other: "c \<noteq> a \<Longrightarrow> map_of (cs @ [(a, xs)]) c = map_of cs c"
  by (induction cs) auto

lemma get_set_col: "get_col (set_col t a xs) a = Inr xs"
  by (simp add: get_col_def set_col_def col_names_def map_of_replace_same map_of_snoc_same
      del: map_of_append)

lemma get_set_col_other: "c \<noteq> a \<Longrightarrow> get_col (set_col t a xs) c = get_col t c"
  by (simp add: get_col_def set_col_def col_names_def map_of_replace_other map_of_snoc_other
      del: map_of_append)

section \<open>The schema invariant\<close>

lemma run_synced:
  assumes "synced ds" and "new_column c \<noteq> Some (target ds)" and "run ext c ds = Inr ds'"
  shows "synced ds'"
proof (cases c)
  case (Drop fs)
  with assms(3) obtain m where "drop_features fs ds = Inr (m, ds')"
    by (auto simp: on_result_Inr)
  with assms(1) show ?thesis by (rule synced_drop)
next
  case Impute
  with assms(3) obtain m where "impute ds = Inr (m, ds')"
    by (auto simp: on_result_Inr)
  then show ?thesis by (rule synced_impute)
next
  case (Ordinal_to_numeric a m)
  with assms(1,3) show ?thesis by (simp add: synced_ordinal)
next
  case (Outliers_fix a l u)
  with assms(1,3) show ?thesis by (simp add: synced_outliers)
next
  case (Density a)
  with assms show ?thesis by (simp add: synced_density)
next
  case (Sum new a b)
  from assms(3) have 1: "on_result data_n (assign_both new (binop_cols add_cell a b) ds) = Inr ds'"
    by (simp add: Sum sum_features_def)
  from assms(2) have 2: "new \<noteq> target ds" by (simp add: Sum)
  show ?thesis by (rule synced_assign_hook[OF assms(1) 1 2])
next
  case (Diff new a b)
  from assms(3) have 1: "on_result data_n (assign_both new (binop_cols sub_cell a b) ds) = Inr ds'"
    by (simp add: Diff diff_def)
  from assms(2) have 2: "new \<noteq> target ds" by (simp add: Diff)
  show ?thesis by (rule synced_assign_hook[OF assms(1) 1 2])
next
  case (Product new a b)
  from assms(3) have 1: "on_result data_n (assign_both new (binop_cols mul_cell a b) ds) = Inr ds'"
    by (simp add: Product product_features_def)
  from assms(2) have 2: "new \<noteq> target ds" by (simp add: Product)
  show ?thesis by (rule synced_assign_hook[OF assms(1) 1 2])
next
  case (Divide new a b)
  from assms(3) have 1: "divide_features new a b ds = Inr ds'" by (simp add: Divide)
  from assms(2) have 2: "new \<noteq> target ds" by (simp add: Divide)
  show ?thesis by (rule synced_divide[OF assms(1) 1 2])
next
  case (Round new a p)
  from assms(3) have 1: "on_result data_n (assign_both new (apply_col (round_cell (around ext) p) a) ds) = Inr ds'"
    by (simp add: Round round_features_def)
  from assms(2) have 2: "new \<noteq> target ds" by (simp add: Round)
  show ?thesis by (rule synced_assign_hook[OF assms(1) 1 2])
next
  case (Concat new a sep b)
  from assms(3) have 1: "assign_both new (binop_cols (\<lambda>x y. Inr (Str (as_str (astype_str ext) x @ sep @ as_str (astype_str ext) y))) a b) ds = Inr ds'"
    by (simp add: Concat concat_features_def)
  from assms(2) have 2: "new \<noteq> target ds" by (simp add: Concat)
  show ?thesis by (rule synced_assign[OF assms(1) 1 2])
next
  case (List_len new a)
  from assms(3) have 1: "on_result data_n (assign_both new (apply_col len_cell a) ds) = Inr ds'"
    by (simp add: List_len list_len_def)
  from assms(2) have 2: "new \<noteq> target ds" by (simp add: List_len)
  show ?thesis by (rule synced_assign_hook[OF assms(1) 1 2])
next
  case (Word_count new a)
  from assms(3) have 1: "on_result data_n (assign_both new (apply_col word_count_cell a) ds) = Inr ds'"
    by (simp add: Word_count word_count_def)
  from assms(2) have 2: "new \<noteq> target ds" by (simp add: Word_count)
  show ?thesis by (rule synced_assign_hook[OF assms(1) 1 2])
next
  case (Regex_extract a regex new)
  with assms show ?thesis by (simp add: synced_regex)
next
  case (Labels fs)
  with assms(3) show ?thesis by (simp add: synced_labels)
qed

lemma assign_both_target: "assign_both new f ds = Inr ds' \<Longrightarrow> target ds' = target ds"
  by (auto simp: assign_both_Inr)

lemma assign_hook_target:
  "on_result data_n (assign_both new f ds) = Inr ds' \<Longrightarrow> target ds' = target ds"
  by (auto simp: on_result_Inr assign_both_Inr data_n_def)

lemma unstack_target: "unstack combine ds = Inr ds' \<Longrightarrow> target ds' = target ds"
  by (auto simp: unstack_def Let_def data_n_def split: sum.splits)

lemma divide_target:
  assumes "divide_features new a b ds = Inr ds'"
  shows "target ds' = target ds"
proof -
  from assms obtain ds1 where 1: "assign_both new (binop_cols div_cell a b) ds = Inr ds1"
    and 2: "on_result data_n (assign_both new (\<lambda>t. on_result replace_inf (get_col t new)) ds1) = Inr ds'"
    by (auto simp: divide_features_def split: sum.splits)
  from assign_both_target[OF 1] assign_hook_target[OF 2] show ?thesis by simp
qed

lemma density_target:
  assumes "density a ds = Inr ds'"
  shows "target ds' = target ds"
proof -
  from assms obtain f where
    "on_result data_n (assign_both (a @ ''_density'') f ds) = Inr ds'"
    by (auto simp: density_def split: sum.splits)
  then show ?thesis by (rule assign_hook_target)
qed

lemma drop_target: "drop_features fs ds = Inr (m, ds') \<Longrightarrow> target ds' = target ds"
  by (auto simp: drop_features_def Let_def data_n_def split: sum.splits)

lemma impute_target: "impute ds = Inr (m, ds') \<Longrightarrow> target ds' = target ds"
  by (auto simp: impute_def Let_def split: sum.splits dest: unstack_target)

lemma labels_target: "labels fs ds = Inr ds' \<Longrightarrow> target ds' = target ds"
  by (auto simp: labels_def split: sum.splits dest: unstack_target)

lemma run_target:
  assumes "run ext c ds = Inr ds'"
  shows "target ds' = target ds"
proof (cases c)
  case (Drop fs)
  with assms obtain m where "drop_features fs ds = Inr (m, ds')"
    by (auto simp: on_result_Inr)
  then show ?thesis by (rule drop_target)
next
  case Impute
  with assms obtain m where "impute ds = Inr (m, ds')"
    by (auto simp: on_result_Inr)
  then show ?thesis by (rule impute_target)
next
  case (Ordinal_to_numeric a m)
  with assms show ?thesis by (simp add: ordinal_to_numeric_def assign_hook_target)
next
  case (Outliers_fix a l u)
  with assms show ?thesis by (simp add: outliers_fix_names)
next
  case (Density a)
  with assms show ?thesis by (simp add: density_target)
next
  case (Sum new a b)
  with assms show ?thesis by (simp add: sum_features_def assign_hook_target)
next
  case (Diff new a b)
  with assms show ?thesis by (simp add: diff_def assign_hook_target)
next
  case (Product new a b)
  with assms show ?thesis by (simp add: product_features_def assign_hook_target)
next
  case (Divide new a b)
  with assms show ?thesis by (simp add: divide_target)
next
  case (Round new a p)
  with assms show ?thesis by (simp add: round_features_def assign_hook_target)
next
  case (Concat new a sep b)
  with assms show ?thesis by (simp add: concat_features_def assign_both_target)
next
  case (List_len new a)
  with assms show ?thesis by (simp add: list_len_def assign_hook_target)
next
  case (Word_count new a)
  with assms show ?thesis by (simp add: word_count_def assign_hook_target)
next
  case (Regex_extract a regex new)
  with assms show ?thesis by (simp add: regex_extract_def assign_both_target)
next
  case (Labels fs)
  with assms show ?thesis by (simp add: labels_target)
qed

text \<open>
  Claim C1, as amended. Let train carry the target column and test carry exactly the other
  columns of train. Then after every call that completes, of any operation of the
  component, this is so again (for the same target name), and so test does not carry the
  target column: provided that the call does not create a column under the name of the
  target. Stacking and cutting back in \<open>labels\<close> and \<open>impute\<close> puts the placeholder
  target into test and takes it out again.
\<close>

theorem schema_synced:
  assumes "synced ds" and "new_column c \<noteq> Some (target ds)" and "run ext c ds = Inr ds'"
  shows "synced ds' \<and> target ds' = target ds"
  using run_synced[OF assms] run_target[OF assms(3)] by simp

text \<open>The theorem at a call of \<open>impute\<close>.\<close>

theorem schema_synced_witness:
  "synced example_missing \<and>
   new_column Impute \<noteq> Some (target example_missing) \<and>
   run example_externals Impute example_missing =
     Inr \<lparr>train = \<lparr>nrows = 3, columns =
            [(''c'', [Str ''x'', Str ''x'', Str ''x'']),
             (''y'', [Num 1, Num 0, Num 1])]\<rparr>,
          test = \<lparr>nrows = 2, columns = [(''c'', [Str ''x'', Str ''z''])]\<rparr>,
          target = ''y'', data_n_calls = 1, printed = []\<rparr> \<and>
   synced \<lparr>train = \<lparr>nrows = 3, columns =
            [(''c'', [Str ''x'', Str ''x'', Str ''x'']),
             (''y'', [Num 1, Num 0, Num 1])]\<rparr>,
          test = \<lparr>nrows = 2, columns = [(''c'', [Str ''x'', Str ''z''])]\<rparr>,
          target = ''y'', data_n_calls = 1, printed = []\<rparr>"
proof -
  have 1: "synced example_missing" by code_simp
  have 2: "new_column Impute \<noteq> Some (target example_missing)" by simp
  have 3: "run example_externals Impute example_missing =
     Inr \<lparr>train = \<lparr>nrows = 3, columns =
            [(''c'', [Str ''x'', Str ''x'', Str ''x'']),
             (''y'', [Num 1, Num 0, Num 1])]\<rparr>,
          test = \<lparr>nrows = 2, columns = [(''c'', [Str ''x'', Str ''z''])]\<rparr>,
          target = ''y'', data_n_calls = 1, printed = []\<rparr>"
    by code_simp
  from schema_synced[OF 1 2 3]
  have 4: "synced \<lparr>train = \<lparr>nrows = 3, columns =
            [(''c'', [Str ''x'', Str ''x'', Str ''x'']),
             (''y'', [Num 1, Num 0, Num 1])]\<rparr>,
          test = \<lparr>nrows = 2, columns = [(''c'', [Str ''x'', Str ''z''])]\<rparr>,
          target = ''y'', data_n_calls = 1, printed = []\<rparr>"
    by (rule conjunct1)
  from 1 2 3 4 show ?thesis by simp
qed

text \<open>
  Claim C1 as stated fails where the new column is named like the target: \<open>sum\<close> then
  stores the target column in test as well.
\<close>

theorem schema_synced_counterexample:
  "synced example \<and>
   sum_features ''y'' ''a'' ''b'' example =
     Inr \<lparr>train = \<lparr>nrows = 3, columns =
            [(''a'', [Num 0, Num 1, Num (- 2)]),
             (''b'', [Num 0, Num 0, Num 4]),
             (''y'', [Num 0, Num 1, Num 2])]\<rparr>,
          test = \<lparr>nrows = 2, columns =
            [(''a'', [Num 5, Num 0]),
             (''b'', [Num 2, Num 0]),
             (''y'', [Num 7, Num 0])]\<rparr>,
          target = ''y'', data_n_calls = 1, printed = []\<rparr> \<and>
   \<not> synced \<lparr>train = \<lparr>nrows = 3, columns =
            [(''a'', [Num 0, Num 1, Num (- 2)]),
             (''b'', [Num 0, Num 0, Num 4]),
             (''y'', [Num 0, Num 1, Num 2])]\<rparr>,
          test = \<lparr>nrows = 2, columns =
            [(''a'', [Num 5, Num 0]),
             (''b'', [Num 2, Num 0]),
             (''y'', [Num 7, Num 0])]\<rparr>,
          target = ''y'', data_n_calls = 1, printed = []\<rparr>"
  by code_simp

section \<open>Division by zero\<close>

text \<open>
  What \<open>divide\<close> leaves in a row whose divisor is 0: the quotient of a non-zero number
  is an infinity, which is replaced by 0; the quotient of 0 is NaN, which is not replaced.
\<close>

lemma divide_by_zero_cell:
  "on_result replace_inf (collect [div_cell (Num x) (Num 0)]) =
     Inr [if x = 0 then Null else Num 0]"
  by (simp add: on_result_def replace_inf_def signed_inf_def)

text \<open>
  Claim C2 says that \<open>divide\<close> stores 0 in every row whose divisor is 0, also where the
  dividend is 0. On the example the first train row and the second test row have 0 over 0,
  and \<open>divide\<close> stores the missing value (NaN) there; the second train row has 1 over 0
  and gets 0.
\<close>

theorem divide_zero_by_zero:
  "divide_features ''q'' ''a'' ''b'' example =
     Inr \<lparr>train = \<lparr>nrows = 3, columns =
            [(''a'', [Num 0, Num 1, Num (- 2)]),
             (''b'', [Num 0, Num 0, Num 4]),
             (''y'', [Num 1, Num 0, Num 1]),
             (''q'', [Null, Num 0, Num (- 1 / 2)])]\<rparr>,
          test = \<lparr>nrows = 2, columns =
            [(''a'', [Num 5, Num 0]),
             (''b'', [Num 2, Num 0]),
             (''q'', [Num (5 / 2), Null])]\<rparr>,
          target = ''y'', data_n_calls = 1, printed = []\<rparr>"
  by code_simp

section \<open>Counting words\<close>

text \<open>
  Claim C7 says that \<open>word_count\<close> stores the number of whitespace-separated words. On
  the example the text \<open>big  house\<close>, two words with two spaces between them, gets 3:
  the text is cut at every single space, and the empty piece between the two spaces is
  counted.
\<close>

theorem word_count_counts_pieces:
  "word_count ''n'' ''t'' example_text =
     Inr \<lparr>train = \<lparr>nrows = 3, columns =
            [(''t'', [Str ''big  house'', Str ''tent'', Str ''big  house'']),
             (''y'', [Num 1, Num 0, Num 1]),
             (''n'', [Num 3, Num 1, Num 3])]\<rparr>,
          test = \<lparr>nrows = 2, columns =
            [(''t'', [Str ''big  house'', Str ''igloo'']),
             (''n'', [Num 3, Num 1])]\<rparr>,
          target = ''y'', data_n_calls = 1, printed = []\<rparr> \<and>
   count_words False ''big  house'' = 2"
  by code_simp

section \<open>A percentile of zero\<close>

text \<open>
  Claim C10. A percentile argument of 0 counts as absent: the call is the call without
  that argument, and with both arguments 0 the data set, the count of the hook and the
  printed output stay as they are, whatever the column.
\<close>

theorem outliers_fix_zero_is_absent:
  "outliers_fix a lower (Some 0) ds = outliers_fix a lower None ds \<and>
   outliers_fix a (Some 0) upper ds = outliers_fix a None upper ds \<and>
   outliers_fix a (Some 0) (Some 0) ds = Inr ds"
  by (simp add: outliers_fix_def split: sum.splits)

section \<open>Calls of the hook\<close>

lemma assign_both_hook:
  "assign_both new f ds = Inr ds' \<Longrightarrow> data_n_calls ds' = data_n_calls ds"
  by (auto simp: assign_both_Inr)

lemma assign_hook_once:
  "on_result data_n (assign_both new f ds) = Inr ds' \<Longrightarrow> data_n_calls ds' = Suc (data_n_calls ds)"
  by (auto simp: on_result_Inr assign_both_Inr data_n_def)

lemma fix_beyond_hook:
  "fix_beyond cmp a q ds = Inr ds' \<Longrightarrow> data_n_calls ds' = Suc (data_n_calls ds)"
  by (auto simp: fix_beyond_def Let_def data_n_def split: sum.splits if_splits)

lemma unstack_hook:
  "unstack combine ds = Inr ds' \<Longrightarrow> data_n_calls ds' = Suc (data_n_calls ds)"
  by (auto simp: unstack_def Let_def data_n_def split: sum.splits)

lemma outliers_fix_hook:
  assumes "outliers_fix a lower upper ds = Inr ds'"
  shows "data_n_calls ds' = data_n_calls ds + (branch_taken upper + branch_taken lower)"
proof -
  from assms obtain ds1 where
    1: "(case upper of None \<Rightarrow> Inr ds | Some u \<Rightarrow> if u = 0 then Inr ds else fix_beyond gt_cell a u ds) = Inr ds1"
    and 2: "(case lower of None \<Rightarrow> Inr ds1 | Some l \<Rightarrow> if l = 0 then Inr ds1 else fix_beyond lt_cell a l ds1) = Inr ds'"
    by (auto simp: outliers_fix_def split: sum.splits)
  from 1 have "data_n_calls ds1 = data_n_calls ds + branch_taken upper"
    by (auto split: option.splits if_splits dest: fix_beyond_hook)
  moreover from 2 have "data_n_calls ds' = data_n_calls ds1 + branch_taken lower"
    by (auto split: option.splits if_splits dest: fix_beyond_hook)
  ultimately show ?thesis by simp
qed

lemma divide_hook:
  assumes "divide_features new a b ds = Inr ds'"
  shows "data_n_calls ds' = Suc (data_n_calls ds)"
proof -
  from assms obtain ds1 where 1: "assign_both new (binop_cols div_cell a b) ds = Inr ds1"
    and 2: "on_result data_n (assign_both new (\<lambda>t. on_result replace_inf (get_col t new)) ds1) = Inr ds'"
    by (auto simp: divide_features_def split: sum.splits)
  from assign_both_hook[OF 1] assign_hook_once[OF 2] show ?thesis by simp
qed

lemma density_hook:
  assumes "density a ds = Inr ds'"
  shows "data_n_calls ds' = Suc (data_n_calls ds)"
proof -
  from assms obtain f where
    "on_result data_n (assign_both (a @ ''_density'') f ds) = Inr ds'"
    by (auto simp: density_def split: sum.splits)
  then show ?thesis by (rule assign_hook_once)
qed

lemma drop_hook:
  "drop_features fs ds = Inr (m, ds') \<Longrightarrow> data_n_calls ds' = Suc (data_n_calls ds)"
  by (auto simp: drop_features_def Let_def data_n_def split: sum.splits)

lemma impute_hook:
  "impute ds = Inr (m, ds') \<Longrightarrow> data_n_calls ds' = Suc (data_n_calls ds)"
  by (auto simp: impute_def Let_def split: sum.splits dest: unstack_hook)

lemma labels_hook:
  "labels fs ds = Inr ds' \<Longrightarrow> data_n_calls ds' = Suc (data_n_calls ds)"
  by (auto simp: labels_def split: sum.splits dest: unstack_hook)

text \<open>
  Claim C9, as amended. A call that completes runs the hook \<open>data_n\<close> exactly once when
  it is a call of \<open>drop\<close>, \<open>impute\<close>, \<open>density\<close>, \<open>sum\<close>, \<open>diff\<close>, \<open>product\<close>,
  \<open>divide\<close>, \<open>round\<close>, \<open>list_len\<close>, \<open>word_count\<close> or \<open>labels\<close> (and of
  \<open>ordinal_to_numeric\<close>); \<open>outliers_fix\<close> runs it once for each branch it takes; and
  \<open>concat\<close> and \<open>regex_extract\<close>, which store a text column, do not run it at all.
\<close>

theorem hook_count:
  assumes "run ext c ds = Inr ds'"
  shows "data_n_calls ds' = data_n_calls ds + hook_calls c"
proof (cases c)
  case (Drop fs)
  with assms obtain m where "drop_features fs ds = Inr (m, ds')"
    by (auto simp: on_result_Inr)
  with Drop show ?thesis by (simp add: drop_hook)
next
  case Impute
  with assms obtain m where "impute ds = Inr (m, ds')"
    by (auto simp: on_result_Inr)
  with Impute show ?thesis by (simp add: impute_hook)
next
  case (Ordinal_to_numeric a m)
  with assms show ?thesis by (simp add: ordinal_to_numeric_def assign_hook_once)
next
  case (Outliers_fix a l u)
  with assms show ?thesis by (simp add: outliers_fix_hook)
next
  case (Density a)
  with assms show ?thesis by (simp add: density_hook)
next
  case (Sum new a b)
  with assms show ?thesis by (simp add: sum_features_def assign_hook_once)
next
  case (Diff new a b)
  with assms show ?thesis by (simp add: diff_def assign_hook_once)
next
  case (Product new a b)
  with assms show ?thesis by (simp add: product_features_def assign_hook_once)
next
  case (Divide new a b)
  with assms show ?thesis by (simp add: divide_hook)
next
  case (Round new a p)
  with assms show ?thesis by (simp add: round_features_def assign_hook_once)
next
  case (Concat new a sep b)
  with assms show ?thesis by (simp add: concat_features_def assign_both_hook)
next
  case (List_len new a)
  with assms show ?thesis by (simp add: list_len_def assign_hook_once)
next
  case (Word_count new a)
  with assms show ?thesis by (simp add: word_count_def assign_hook_once)
next
  case (Regex_extract a regex new)
  with assms show ?thesis by (simp add: regex_extract_def assign_both_hook)
next
  case (Labels fs)
  with assms show ?thesis by (simp add: labels_hook)
qed

text \<open>The theorem at a call of \<open>sum\<close>.\<close>

theorem hook_count_witness:
  "run example_externals (Sum ''s'' ''a'' ''b'') example =
     Inr \<lparr>train = \<lparr>nrows = 3, columns =
            [(''a'', [Num 0, Num 1, Num (- 2)]),
             (''b'', [Num 0, Num 0, Num 4]),
             (''y'', [Num 1, Num 0, Num 1]),
             (''s'', [Num 0, Num 1, Num 2])]\<rparr>,
          test = \<lparr>nrows = 2, columns =
            [(''a'', [Num 5, Num 0]),
             (''b'', [Num 2, Num 0]),
             (''s'', [Num 7, Num 0])]\<rparr>,
          target = ''y'', data_n_calls = 1, printed = []\<rparr> \<and>
   (1::nat) = data_n_calls example + hook_calls (Sum ''s'' ''a'' ''b'')"
proof -
  have 1: "run example_externals (Sum ''s'' ''a'' ''b'') example =
     Inr \<lparr>train = \<lparr>nrows = 3, columns =
            [(''a'', [Num 0, Num 1, Num (- 2)]),
             (''b'', [Num 0, Num 0, Num 4]),
             (''y'', [Num 1, Num 0, Num 1]),
             (''s'', [Num 0, Num 1, Num 2])]\<rparr>,
          test = \<lparr>nrows = 2, columns =
            [(''a'', [Num 5, Num 0]),
             (''b'', [Num 2, Num 0]),
             (''s'', [Num 7, Num 0])]\<rparr>,
          target = ''y'', data_n_calls = 1, printed = []\<rparr>"
    by code_simp
  from hook_count[OF 1] 1 show ?thesis by simp
qed

text \<open>
  Claim C9 as stated fails at \<open>concat\<close>: the call adds the column \<open>tt\<close> to both
  frames, and the hook has run 0 times before the call and 0 times after it.
\<close>

theorem hook_count_counterexample:
  "data_n_calls example_text = 0 \<and>
   concat_features text_of ''tt'' ''t'' ''-'' ''t'' example_text =
     Inr \<lparr>train = \<lparr>nrows = 3, columns =
            [(''t'', [Str ''big  house'', Str ''tent'', Str ''big  house'']),
             (''y'', [Num 1, Num 0, Num 1]),
             (''tt'', [Str ''big  house-big  house'', Str ''tent-tent'',
                      Str ''big  house-big  house''])]\<rparr>,
          test = \<lparr>nrows = 2, columns =
            [(''t'', [Str ''big  house'', Str ''igloo'']),
             (''tt'', [Str ''big  house-big  house'', Str ''igloo-igloo''])]\<rparr>,
          target = ''y'', data_n_calls = 0, printed = []\<rparr>"
  by code_simp

section \<open>Results of a cell-wise application\<close>

lemma collect_map_Inr: "collect (map Inr ys) = Inr ys"
  by (induction ys) auto

lemma collect_InrD: "collect rs = Inr ys \<Longrightarrow> rs = map Inr ys"
  by (induction rs arbitrary: ys) (auto split: sum.splits)

lemma collect_Inr: "collect rs = Inr ys \<longleftrightarrow> rs = map Inr ys"
  by (auto simp: collect_map_Inr dest: collect_InrD)

lemma apply_cells_Inr: "apply_cells f xs = Inr ys \<longleftrightarrow> map f xs = map Inr ys"
  by (simp add: apply_cells_def collect_Inr)

lemma apply_cells_nth:
  assumes "apply_cells f xs = Inr ys"
  shows "length ys = length xs" and "i < length xs \<Longrightarrow> f (xs ! i) = Inr (ys ! i)"
proof -
  from assms have m: "map f xs = map Inr ys" by (simp add: apply_cells_Inr)
  then show l: "length ys = length xs" by (metis length_map)
  assume "i < length xs"
  with m l show "f (xs ! i) = Inr (ys ! i)" by (metis nth_map)
qed

section \<open>Ordinal values\<close>

lemma lookup_all:
  "list_all hashable xs \<Longrightarrow> set xs \<subseteq> dom m \<Longrightarrow>
   apply_cells (dict_lookup m) xs = Inr (map (\<lambda>x. the (m x)) xs)"
proof (induction xs)
  case Nil
  then show ?case by (simp add: apply_cells_def)
next
  case (Cons x xs)
  then have "collect (map (dict_lookup m) xs) = Inr (map (\<lambda>x. the (m x)) xs)"
    by (simp add: apply_cells_def)
  moreover from Cons.prems have "dict_lookup m x = Inr (the (m x))"
    by (auto simp: dict_lookup_def)
  ultimately show ?case by (simp add: apply_cells_def)
qed

lemma lookup_missing:
  "list_all hashable xs \<Longrightarrow> \<not> set xs \<subseteq> dom m \<Longrightarrow>
   apply_cells (dict_lookup m) xs = Inl KeyError"
proof (induction xs)
  case Nil
  then show ?case by simp
next
  case (Cons x xs)
  show ?case
  proof (cases "m x")
    case None
    with Cons.prems(1) have "dict_lookup m x = Inl KeyError" by (simp add: dict_lookup_def)
    then show ?thesis by (simp add: apply_cells_def)
  next
    case (Some v)
    with Cons.prems(2) have "\<not> set xs \<subseteq> dom m" by auto
    with Cons.IH Cons.prems(1) have "apply_cells (dict_lookup m) xs = Inl KeyError" by simp
    then have "collect (map (dict_lookup m) xs) = Inl KeyError" by (simp add: apply_cells_def)
    moreover from Some Cons.prems(1) have "dict_lookup m x = Inr v" by (simp add: dict_lookup_def)
    ultimately show ?thesis by (simp add: apply_cells_def)
  qed
qed

text \<open>
  Claim C8, as amended. Let the column exist in both frames and hold no list. If every
  value of the column in both frames is a key of the mapping, \<open>ordinal_to_numeric\<close>
  completes and the column holds the mapped values in both frames; if some value in either
  frame is not a key, the call ends in KeyError.
\<close>

theorem ordinal_to_numeric_maps_or_fails:
  assumes "get_col (train ds) a = Inr xs" and "get_col (test ds) a = Inr ys"
    and "list_all hashable (xs @ ys)"
  shows "if set (xs @ ys) \<subseteq> dom m
         then on_result (\<lambda>ds'. (get_col (train ds') a, get_col (test ds') a))
                (ordinal_to_numeric a m ds) =
              Inr (Inr (map (\<lambda>x. the (m x)) xs), Inr (map (\<lambda>y. the (m y)) ys))
         else ordinal_to_numeric a m ds = Inl KeyError"
proof (cases "set (xs @ ys) \<subseteq> dom m")
  case True
  with assms(3) have "apply_cells (dict_lookup m) xs = Inr (map (\<lambda>x. the (m x)) xs)"
    and "apply_cells (dict_lookup m) ys = Inr (map (\<lambda>y. the (m y)) ys)"
    by (simp_all add: lookup_all)
  with True assms(1,2) show ?thesis
    by (simp add: ordinal_to_numeric_def assign_both_def apply_col_def on_result_def
        data_n_def get_set_col)
next
  case False
  show ?thesis
  proof (cases "set xs \<subseteq> dom m")
    case True
    with False have "\<not> set ys \<subseteq> dom m" by auto
    with assms(3) have "apply_cells (dict_lookup m) ys = Inl KeyError"
      by (simp add: lookup_missing)
    moreover from True assms(3) have "apply_cells (dict_lookup m) xs = Inr (map (\<lambda>x. the (m x)) xs)"
      by (simp add: lookup_all)
    ultimately show ?thesis using False assms(1,2)
      by (simp add: ordinal_to_numeric_def assign_both_def apply_col_def on_result_def)
  next
    case nx: False
    with assms(3) have "apply_cells (dict_lookup m) xs = Inl KeyError"
      by (simp add: lookup_missing)
    then show ?thesis using False assms(1,2)
      by (simp add: ordinal_to_numeric_def assign_both_def apply_col_def on_result_def)
  qed
qed

text \<open>
  The theorem on the sizes of the example: with a mapping for \<open>S\<close>, \<open>M\<close> and \<open>L\<close>,
  and with a mapping that lacks \<open>M\<close>, a value of the test frame.
\<close>

theorem ordinal_to_numeric_witness:
  "get_col (train example_sizes) ''size'' = Inr [Str ''S'', Str ''L''] \<and>
   get_col (test example_sizes) ''size'' = Inr [Str ''M'', Str ''S''] \<and>
   list_all hashable ([Str ''S'', Str ''L''] @ [Str ''M'', Str ''S'']) \<and>
   on_result (\<lambda>ds'. (get_col (train ds') ''size'', get_col (test ds') ''size''))
     (ordinal_to_numeric ''size''
        (map_of [(Str ''S'', Num 1), (Str ''M'', Num 2), (Str ''L'', Num 3)]) example_sizes) =
     Inr (Inr [Num 1, Num 3], Inr [Num 2, Num 1]) \<and>
   ordinal_to_numeric ''size'' (map_of [(Str ''S'', Num 1), (Str ''L'', Num 3)]) example_sizes =
     Inl KeyError"
proof -
  have 1: "get_col (train example_sizes) ''size'' = Inr [Str ''S'', Str ''L'']"
    by (simp add: example_sizes_def get_col_def)
  have 2: "get_col (test example_sizes) ''size'' = Inr [Str ''M'', Str ''S'']"
    by (simp add: example_sizes_def get_col_def)
  have 3: "list_all hashable ([Str ''S'', Str ''L''] @ [Str ''M'', Str ''S''])"
    by simp
  from ordinal_to_numeric_maps_or_fails[OF 1 2 3,
      of "map_of [(Str ''S'', Num 1), (Str ''M'', Num 2), (Str ''L'', Num 3)]"]
    ordinal_to_numeric_maps_or_fails[OF 1 2 3, of "map_of [(Str ''S'', Num 1), (Str ''L'', Num 3)]"]
    1 2 3
  show ?thesis by (simp add: dom_map_of_conv_image_fst)
qed

text \<open>
  Claim C8 as stated fails on a column of lists: a list has no entry in the mapping, and
  the call ends in TypeError, not in KeyError, because a list cannot be looked up in a
  dictionary at all.
\<close>

theorem ordinal_to_numeric_counterexample:
  "get_col (train example_lists) ''l'' = Inr [Lst [Num 1, Num 2], Lst []] \<and>
   map_of [(Str ''S'', Num 1)] (Lst [Num 1, Num 2]) = None \<and>
   ordinal_to_numeric ''l'' (map_of [(Str ''S'', Num 1)]) example_lists = Inl TypeError"
  by code_simp

section \<open>Density\<close>

lemma map_of_counts:
  "map_of (map (\<lambda>v. (v, g v)) ks) v = (if v \<in> set ks then Some (g v) else None)"
  by (induction ks) auto

lemma value_counts_lookup:
  assumes "value_counts xs = Inr vals"
  shows "map_of vals v = (if v \<in> set xs \<and> v \<noteq> Null then Some (count_list xs v) else None)"
  using assms by (auto simp: value_counts_def map_of_counts split: if_splits)

lemma fold_min_Min: "fold min cs (c::nat) = Min (set (c # cs))"
  by (rule Min.set_eq_fold[symmetric])

lemma counts_min_eq:
  assumes "value_counts xs = Inr vals" and "set xs - {Null} \<noteq> {}"
  shows "counts_min vals = Num (of_nat (min_frequency xs))"
proof -
  from assms(1) have vals: "vals = map (\<lambda>v. (v, count_list xs v)) (remdups (filter (\<lambda>x. x \<noteq> Null) xs))"
    by (auto simp: value_counts_def split: if_splits)
  have s: "set (map snd vals) = count_list xs ` (set xs - {Null})"
    unfolding vals by (auto simp: image_iff)
  with assms(2) have "map snd vals \<noteq> []" by auto
  then obtain c cs where ccs: "map snd vals = c # cs" by (cases "map snd vals") auto
  then have "counts_min vals = Num (of_nat (Min (set (c # cs))))"
    by (simp add: counts_min_def fold_min_Min del: set_simps)
  with s ccs show ?thesis by (simp add: min_frequency_def)
qed


lemma counts_min_none:
  assumes "value_counts xs = Inr vals" and "set xs - {Null} = {}"
  shows "counts_min vals = Null"
proof -
  from assms(2) have "filter (\<lambda>x. x \<noteq> Null) xs = []"
    by (auto simp: filter_empty_conv)
  with assms(1) have "vals = []" by (auto simp: value_counts_def split: if_splits)
  then show ?thesis by (simp add: counts_min_def)
qed

lemma dict_get_frequency:
  assumes "value_counts xs = Inr vals" and "hashable v"
  shows "dict_get vals v (counts_min vals) = Inr (frequency xs v)"
proof (cases "v \<noteq> Null \<and> v \<in> set xs")
  case True
  with assms show ?thesis
    by (simp add: dict_get_def value_counts_lookup frequency_def)
next
  case False
  then have "map_of vals v = None" using assms(1) by (auto simp: value_counts_lookup)
  moreover have "counts_min vals = (if set xs - {Null} = {} then Null else Num (of_nat (min_frequency xs)))"
    using assms(1) by (simp add: counts_min_none counts_min_eq)
  ultimately show ?thesis using False assms(2) by (auto simp: dict_get_def frequency_def)
qed

lemma apply_dict_get:
  assumes "value_counts xs = Inr vals" and "list_all hashable ys"
  shows "apply_cells (\<lambda>x. dict_get vals x (counts_min vals)) ys = Inr (map (frequency xs) ys)"
proof -
  from assms have "map (\<lambda>x. dict_get vals x (counts_min vals)) ys = map Inr (map (frequency xs) ys)"
    by (simp add: list_all_iff dict_get_frequency)
  then show ?thesis by (simp add: apply_cells_Inr)
qed

text \<open>
  Claim C4, as amended. Let the column exist in both frames and hold no list. Then
  \<open>density\<close> completes and the new column, named with the suffix \<open>_density\<close>, holds
  in both frames: for a row whose value is present and occurs in the train column, the
  frequency of that value in the train column; for every other row (a test value that does
  not occur in train, or a missing value in either frame) the least frequency of a present
  value of the train column, or NaN when the train column has no present value.
\<close>

theorem density_frequencies:
  assumes "get_col (train ds) a = Inr xs" and "get_col (test ds) a = Inr ys"
    and "list_all hashable (xs @ ys)"
  shows "on_result (\<lambda>ds'. (get_col (train ds') (a @ ''_density''),
                           get_col (test ds') (a @ ''_density''))) (density a ds) =
         Inr (Inr (map (frequency xs) xs), Inr (map (frequency xs) ys))"
proof -
  from assms(3) obtain vals where vals: "value_counts xs = Inr vals"
    by (simp add: value_counts_def)
  from assms(3) have "apply_cells (\<lambda>x. dict_get vals x (counts_min vals)) xs = Inr (map (frequency xs) xs)"
    and "apply_cells (\<lambda>x. dict_get vals x (counts_min vals)) ys = Inr (map (frequency xs) ys)"
    by (simp_all add: apply_dict_get[OF vals])
  with assms(1,2) vals show ?thesis
    by (simp add: density_def assign_both_def apply_col_def on_result_def data_n_def get_set_col)
qed

text \<open>The theorem on the texts of the example.\<close>

theorem density_frequencies_witness:
  "get_col (train example_text) ''t'' = Inr [Str ''big  house'', Str ''tent'', Str ''big  house''] \<and>
   get_col (test example_text) ''t'' = Inr [Str ''big  house'', Str ''igloo''] \<and>
   list_all hashable
     ([Str ''big  house'', Str ''tent'', Str ''big  house''] @ [Str ''big  house'', Str ''igloo'']) \<and>
   on_result (\<lambda>ds'. (get_col (train ds') (''t'' @ ''_density''),
                     get_col (test ds') (''t'' @ ''_density''))) (density ''t'' example_text) =
     Inr (Inr [Num 2, Num 1, Num 2], Inr [Num 2, Num 1])"
proof -
  have 1: "get_col (train example_text) ''t'' =
      Inr [Str ''big  house'', Str ''tent'', Str ''big  house'']"
    by (simp add: example_text_def get_col_def)
  have 2: "get_col (test example_text) ''t'' = Inr [Str ''big  house'', Str ''igloo'']"
    by (simp add: example_text_def get_col_def)
  have 3: "list_all hashable
     ([Str ''big  house'', Str ''tent'', Str ''big  house''] @ [Str ''big  house'', Str ''igloo''])"
    by simp
  have 4: "map (frequency [Str ''big  house'', Str ''tent'', Str ''big  house''])
        [Str ''big  house'', Str ''tent'', Str ''big  house''] = [Num 2, Num 1, Num 2]"
    by (simp add: frequency_def min_frequency_def)
  have 5: "map (frequency [Str ''big  house'', Str ''tent'', Str ''big  house''])
        [Str ''big  house'', Str ''igloo''] = [Num 2, Num 1]"
    by (simp add: frequency_def min_frequency_def)
  from density_frequencies[OF 1 2 3] 1 2 3 4 5 show ?thesis by simp
qed

text \<open>
  Claim C4 as stated fails at a missing value in train: the third train row holds the
  missing value, which occurs once in the train column, and gets 2, the least frequency of
  a present value. It also fails on a column of lists, which cannot be counted: the call
  ends in TypeError and adds no column.
\<close>

theorem density_frequencies_counterexample:
  "density ''c'' example_missing =
     Inr \<lparr>train = \<lparr>nrows = 3, columns =
            [(''c'', [Str ''x'', Str ''x'', Null]),
             (''y'', [Num 1, Num 0, Num 1]),
             (''c_density'', [Num 2, Num 2, Num 2])]\<rparr>,
          test = \<lparr>nrows = 2, columns =
            [(''c'', [Str ''x'', Str ''z'']),
             (''c_density'', [Num 2, Num 2])]\<rparr>,
          target = ''y'', data_n_calls = 1, printed = []\<rparr> \<and>
   count_list [Str ''x'', Str ''x'', Null] Null = 1 \<and>
   get_col (train example_lists) ''l'' = Inr [Lst [Num 1, Num 2], Lst []] \<and>
   get_col (test example_lists) ''l'' = Inr [Lst [Num 3]] \<and>
   density ''l'' example_lists = Inl TypeError"
  by code_simp

section \<open>Fixing outliers\<close>






section \<open>Label encoding\<close>

lemma index_of_inj:
  "x \<in> set cs \<Longrightarrow> y \<in> set cs \<Longrightarrow> index_of x cs = index_of y cs \<Longrightarrow> x = y"
  by (induction cs) (auto split: if_splits)

lemma unique_inverse_length: "length (unique_inverse ks) = length ks"
  by (simp add: unique_inverse_def)

lemma unique_inverse_eq:
  assumes "i < length ks" and "j < length ks"
  shows "(unique_inverse ks ! i = unique_inverse ks ! j) = (ks ! i = ks ! j)"
proof -
  have a: "ks ! i \<in> set (sort (remdups ks))" and b: "ks ! j \<in> set (sort (remdups ks))"
    using assms by simp_all
  show ?thesis
    using assms index_of_inj[OF a b] by (auto simp: unique_inverse_def)
qed

lemma is_code_of_nat: "is_code (Num (of_nat k))"
  by simp

lemma text_key_inj:
  "text_or_missing x \<Longrightarrow> text_or_missing y \<Longrightarrow> (text_key x = text_key y) = (x = y)"
  by (cases x; cases y) auto

lemma num_key_inj: "is_number x \<Longrightarrow> is_number y \<Longrightarrow> (num_key x = num_key y) = (x = y)"
  by (cases x; cases y) auto

lemma encode_pattern:
  assumes "\<And>x y. x \<in> set xs \<Longrightarrow> y \<in> set xs \<Longrightarrow> (key x = key y) = (x = y)"
  shows "same_pattern xs (map (\<lambda>k. Num (of_nat k)) (unique_inverse (map key xs)))"
  unfolding same_pattern_def
proof (intro conjI allI impI)
  show "length (map (\<lambda>k. Num (of_nat k)) (unique_inverse (map key xs))) = length xs"
    by (simp add: unique_inverse_length)
next
  fix i j assume i: "i < length xs" and j: "j < length xs"
  then have "(unique_inverse (map key xs) ! i = unique_inverse (map key xs) ! j) =
      (map key xs ! i = map key xs ! j)"
    by (simp add: unique_inverse_eq)
  also have "\<dots> = (xs ! i = xs ! j)" using i j assms by simp
  finally show "(map (\<lambda>k. Num (of_nat k)) (unique_inverse (map key xs)) ! i =
      map (\<lambda>k. Num (of_nat k)) (unique_inverse (map key xs)) ! j) = (xs ! i = xs ! j)"
    using i j by (simp add: unique_inverse_length)
qed

lemma codes_map: "list_all is_code (map (\<lambda>k. Num (of_nat k)) ks)"
  by (induction ks) simp_all

lemma fit_transform_pattern:
  assumes "fit_transform xs = Inr ys"
  shows "same_pattern xs ys \<and> list_all is_code ys"
proof (cases "list_all text_or_missing xs")
  case True
  then have "\<And>x y. x \<in> set xs \<Longrightarrow> y \<in> set xs \<Longrightarrow> (text_key x = text_key y) = (x = y)"
    by (simp add: list_all_iff text_key_inj)
  then have "same_pattern xs (map (\<lambda>k. Num (of_nat k)) (unique_inverse (map text_key xs)))"
    by (rule encode_pattern)
  with True assms show ?thesis by (auto simp: fit_transform_def codes_map)
next
  case False
  with assms have n: "list_all is_number xs" and
    ys: "ys = map (\<lambda>k. Num (of_nat k)) (unique_inverse (map num_key xs))"
    by (auto simp: fit_transform_def split: if_splits)
  from n have "\<And>x y. x \<in> set xs \<Longrightarrow> y \<in> set xs \<Longrightarrow> (num_key x = num_key y) = (x = y)"
    by (simp add: list_all_iff num_key_inj)
  then have "same_pattern xs (map (\<lambda>k. Num (of_nat k)) (unique_inverse (map num_key xs)))"
    by (rule encode_pattern)
  with ys show ?thesis by (simp add: codes_map)
qed

lemma same_pattern_refl: "same_pattern xs xs"
  by (simp add: same_pattern_def)

lemma same_pattern_trans: "same_pattern xs ys \<Longrightarrow> same_pattern ys zs \<Longrightarrow> same_pattern xs zs"
  by (simp add: same_pattern_def)

lemma same_pattern_take:
  "same_pattern (xs @ ps) zs \<Longrightarrow> same_pattern xs (take (length xs) zs)"
  by (simp add: same_pattern_def nth_append)

lemma encode_features_cols:
  assumes "encode_features fs t = Inr t'" and "get_col t c = Inr xs"
  shows "\<exists>ys. get_col t' c = Inr ys \<and> same_pattern xs ys \<and>
           (c \<in> set fs \<longrightarrow> list_all is_code ys) \<and> (c \<notin> set fs \<longrightarrow> ys = xs)"
  using assms
proof (induction fs arbitrary: t xs)
  case Nil
  then show ?case by (simp add: same_pattern_refl)
next
  case (Cons f fs)
  from Cons.prems(1) obtain us vs where
    us: "get_col t f = Inr us" and vs: "fit_transform us = Inr vs" and
    rest: "encode_features fs (set_col t f vs) = Inr t'"
    by (auto split: sum.splits)
  show ?case
  proof (cases "c = f")
    case True
    with us Cons.prems(2) have "us = xs" by simp
    with vs have p: "same_pattern xs vs" and codes: "list_all is_code vs"
      by (simp_all add: fit_transform_pattern)
    have "get_col (set_col t f vs) c = Inr vs" using True by (simp add: get_set_col)
    from Cons.IH[OF rest this] obtain ys where
      ys: "get_col t' c = Inr ys" "same_pattern vs ys"
        "c \<in> set fs \<longrightarrow> list_all is_code ys" "c \<notin> set fs \<longrightarrow> ys = vs"
      by blast
    from p ys(2) have "same_pattern xs ys" by (rule same_pattern_trans)
    moreover from ys(3,4) codes have "list_all is_code ys" by blast
    ultimately show ?thesis using ys(1) True by simp
  next
    case False
    then have "get_col (set_col t f vs) c = Inr xs"
      using Cons.prems(2) by (simp add: get_set_col_other)
    from Cons.IH[OF rest this] False show ?thesis by simp
  qed
qed

lemma encode_features_nrows: "encode_features fs t = Inr t' \<Longrightarrow> nrows t' = nrows t"
  by (induction fs arbitrary: t) (auto simp: set_col_nrows split: sum.splits)

lemma encode_features_names:
  "encode_features fs t = Inr t' \<Longrightarrow> set fs \<subseteq> set (col_names t)"
proof (induction fs arbitrary: t)
  case Nil
  then show ?case by simp
next
  case (Cons f fs)
  from Cons.prems obtain us vs where
    us: "get_col t f = Inr us" and
    rest: "encode_features fs (set_col t f vs) = Inr t'"
    by (auto split: sum.splits)
  from us have f: "f \<in> set (col_names t)" by (rule get_col_names)
  from Cons.IH[OF rest] f show ?case by (simp add: set_col_names_old)
qed

lemma get_col_Some: "get_col t c = Inr xs \<longleftrightarrow> map_of (columns t) c = Some xs"
  by (auto simp: get_col_def split: option.splits)

lemma map_of_None_names: "map_of (columns t) c = None \<longleftrightarrow> c \<notin> set (col_names t)"
  by (simp add: col_names_def map_of_eq_None_iff)

lemma wf_table_length: "wf_table t \<Longrightarrow> get_col t c = Inr xs \<Longrightarrow> length xs = nrows t"
  by (auto simp: wf_table_def list_all_iff get_col_Some dest!: map_of_SomeD)

lemma map_of_with_name:
  "map_of (map (\<lambda>(n, xs). (n, g n xs)) cs) c = map_option (g c) (map_of cs c)"
  by (induction cs) auto

lemma get_col_append:
  assumes "get_col t c = Inr xs"
  shows "get_col (append t u) c = Inr (xs @ col_or_null u c)"
proof -
  from assms have "map_of (columns t) c = Some xs" by (simp add: get_col_Some)
  then have "map_of (map (\<lambda>(n, xs). (n, xs @ col_or_null u n)) (columns t)) c =
      Some (xs @ col_or_null u c)"
    by (simp add: map_of_with_name[where g = "\<lambda>n xs. xs @ col_or_null u n"])
  then show ?thesis by (simp add: get_col_Some append_def)
qed

lemma map_fst_with_name: "map fst (map (\<lambda>(n, xs). (n, g n xs)) cs) = map fst cs"
  by (induction cs) auto

lemma append_names:
  "set (col_names (append t u)) = set (col_names t) \<union> set (col_names u)"
proof -
  have "col_names (append t u) =
      col_names t @ map fst (filter (\<lambda>(n, ys). n \<notin> set (col_names t)) (columns u))"
    by (simp add: append_def col_names_def
        map_fst_with_name[where g = "\<lambda>n xs. xs @ col_or_null u n"]
        map_fst_with_name[where g = "\<lambda>n ys. replicate (nrows t) Null @ ys"] del: map_map)
  moreover have "set (map fst (filter (\<lambda>(n, ys). n \<notin> set (col_names t)) (columns u))) =
      set (col_names u) - set (col_names t)"
    by (auto simp: col_names_def image_iff)
  ultimately show ?thesis by auto
qed

lemma append_nrows: "nrows (append t u) = nrows t + nrows u"
  by (simp add: append_def)

lemma get_col_head_rows: "get_col t c = Inr xs \<Longrightarrow> get_col (head_rows n t) c = Inr (take n xs)"
  by (simp add: get_col_Some head_rows_def map_of_with_name[where g = "\<lambda>c xs. take n xs"])

lemma get_col_tail_rows: "get_col t c = Inr xs \<Longrightarrow> get_col (tail_rows n t) c = Inr (drop n xs)"
  by (simp add: get_col_Some tail_rows_def map_of_with_name[where g = "\<lambda>c xs. drop n xs"])

lemma map_of_filter_names:
  "map_of (filter (\<lambda>(n, ys). n \<notin> set fs) cs) c = (if c \<in> set fs then None else map_of cs c)"
  by (induction cs) auto

lemma drop_cols_map_of:
  "drop_cols t fs = Inr t' \<Longrightarrow>
   map_of (columns t') c = (if c \<in> set fs then None else map_of (columns t) c)"
  by (auto simp: drop_cols_def map_of_filter_names split: if_splits)

lemma labels_pattern:
  assumes "wf_table (train ds)" and "wf_table (test ds)" and "synced ds"
    and "labels features ds = Inr ds'" and "f \<in> set features"
  shows "same_pattern (cells_of ds f) (cells_of ds' f) \<and> list_all is_code (cells_of ds' f)"
proof -
  let ?n = "nrows (train ds)" and ?m = "nrows (test ds)"
  let ?te = "set_col (test ds) (target ds) (replicate ?m (Num (- 1)))"
  from assms(4) obtain combine where
    enc: "encode_features features (stack ds) = Inr combine" and
    un: "unstack combine ds = Inr ds'"
    by (auto simp: labels_def split: sum.splits)
  from assms(3) have tgt: "target ds \<in> set (col_names (train ds))"
    and names: "set (col_names (test ds)) = set (col_names (train ds)) - {target ds}"
    by (simp_all add: synced_def)
  have "set (col_names (stack ds)) = set (col_names (train ds))"
    using tgt names by (auto simp: stack_def append_names set_col_names)
  with encode_features_names[OF enc] assms(5) have "f \<in> set (col_names (train ds))" by auto
  then obtain xs where xs: "get_col (train ds) f = Inr xs"
    by (cases "map_of (columns (train ds)) f") (auto simp: map_of_None_names get_col_Some)
  from assms(1) xs have lxs: "length xs = ?n" by (rule wf_table_length)
  let ?ps = "col_or_null ?te f"
  have "get_col (stack ds) f = Inr (xs @ ?ps)"
    unfolding stack_def using xs by (rule get_col_append)
  from encode_features_cols[OF enc this] assms(5) obtain zs where
    zs: "get_col combine f = Inr zs" and pat: "same_pattern (xs @ ?ps) zs"
    and codes: "list_all is_code zs"
    by auto
  from un obtain te' where
    te': "drop_cols (tail_rows (nrows (head_rows ?n combine)) combine) [target ds] = Inr te'"
    and ds': "ds' = data_n (ds\<lparr>train := head_rows ?n combine, test := te'\<rparr>)"
    by (auto simp: unstack_def Let_def split: sum.splits)
  have "nrows combine = ?n + ?m"
    using encode_features_nrows[OF enc] by (simp add: stack_def append_nrows set_col_nrows)
  then have cut: "nrows (head_rows ?n combine) = ?n" by (simp add: head_rows_def)
  have tr: "map_of (columns (train ds')) f = Some (take ?n zs)"
    using get_col_head_rows[OF zs, of ?n] by (simp add: ds' data_n_def get_col_Some)
  show ?thesis
  proof (cases "f = target ds")
    case True
    with names have "map_of (columns (test ds)) f = None" by (simp add: map_of_None_names)
    with xs have before: "cells_of ds f = xs" by (simp add: cells_of_def get_col_Some)
    from drop_cols_map_of[OF te', of f] True have "map_of (columns (test ds')) f = None"
      by (simp add: ds' data_n_def)
    with tr have after: "cells_of ds' f = take (length xs) zs" by (simp add: cells_of_def lxs)
    from pat have "same_pattern xs (take (length xs) zs)" by (rule same_pattern_take)
    moreover from codes have "list_all is_code (take (length xs) zs)"
      by (auto simp: list_all_iff dest: in_set_takeD)
    ultimately show ?thesis by (simp add: before after)
  next
    case False
    with names \<open>f \<in> set (col_names (train ds))\<close> have "f \<in> set (col_names (test ds))" by simp
    then obtain ys where ys: "get_col (test ds) f = Inr ys"
      by (cases "map_of (columns (test ds)) f") (auto simp: map_of_None_names get_col_Some)
    with xs have before: "cells_of ds f = xs @ ys" by (simp add: cells_of_def get_col_Some)
    from ys False have "get_col ?te f = Inr ys" by (simp add: get_set_col_other)
    then have ps: "?ps = ys" by (simp add: col_or_null_def get_col_Some)
    from get_col_tail_rows[OF zs, of ?n] have "map_of (columns (tail_rows ?n combine)) f = Some (drop ?n zs)"
      by (simp add: get_col_Some)
    with drop_cols_map_of[OF te', of f] False cut have "map_of (columns (test ds')) f = Some (drop ?n zs)"
      by (simp add: ds' data_n_def)
    with tr have after: "cells_of ds' f = zs" by (simp add: cells_of_def)
    from pat codes show ?thesis by (simp add: before after ps)
  qed
qed

lemma is_code_number: "is_code c \<Longrightarrow> is_number c"
  by (cases c) auto

lemma codes_encodable: "list_all is_code ys \<Longrightarrow> encodable ys"
  by (auto simp: encodable_def list_all_iff is_code_number)

lemma fit_transform_Inr_iff: "(\<exists>ys. fit_transform xs = Inr ys) = encodable xs"
  by (auto simp: fit_transform_def encodable_def)

lemma encode_features_complete:
  "\<forall>f\<in>set fs. \<exists>xs. get_col t f = Inr xs \<and> encodable xs \<Longrightarrow> \<exists>t'. encode_features fs t = Inr t'"
proof (induction fs arbitrary: t)
  case Nil
  then show ?case by simp
next
  case (Cons f fs)
  from Cons.prems obtain xs where xs: "get_col t f = Inr xs" and e: "encodable xs" by auto
  from e obtain ys where ys: "fit_transform xs = Inr ys" using fit_transform_Inr_iff by blast
  then have codes: "list_all is_code ys" by (simp add: fit_transform_pattern)
  have "\<forall>g\<in>set fs. \<exists>zs. get_col (set_col t f ys) g = Inr zs \<and> encodable zs"
  proof
    fix g assume g: "g \<in> set fs"
    show "\<exists>zs. get_col (set_col t f ys) g = Inr zs \<and> encodable zs"
    proof (cases "g = f")
      case True
      with codes show ?thesis by (simp add: get_set_col codes_encodable)
    next
      case False
      with g Cons.prems show ?thesis by (simp add: get_set_col_other)
    qed
  qed
  from Cons.IH[OF this] xs ys show ?case by simp
qed

lemma encode_features_encodable:
  "encode_features fs t = Inr t' \<Longrightarrow> f \<in> set fs \<Longrightarrow> \<exists>xs. get_col t f = Inr xs \<and> encodable xs"
proof (induction fs arbitrary: t)
  case Nil
  then show ?case by simp
next
  case (Cons g fs)
  from Cons.prems(1) obtain us vs where
    us: "get_col t g = Inr us" and vs: "fit_transform us = Inr vs" and
    rest: "encode_features fs (set_col t g vs) = Inr t'"
    by (auto split: sum.splits)
  from vs have e: "encodable us" using fit_transform_Inr_iff by blast
  show ?case
  proof (cases "f = g")
    case True
    with us e show ?thesis by simp
  next
    case False
    with Cons.prems(2) have "f \<in> set fs" by simp
    from Cons.IH[OF rest this] False show ?thesis by (simp add: get_set_col_other)
  qed
qed

lemma encode_features_col_names: "encode_features fs t = Inr t' \<Longrightarrow> col_names t' = col_names t"
proof (induction fs arbitrary: t)
  case Nil
  then show ?case by simp
next
  case (Cons f fs)
  from Cons.prems obtain us vs where
    us: "get_col t f = Inr us" and
    rest: "encode_features fs (set_col t f vs) = Inr t'"
    by (auto split: sum.splits)
  from us have "f \<in> set (col_names t)" by (rule get_col_names)
  with Cons.IH[OF rest] show ?case by (simp add: set_col_names_old)
qed

lemma stack_names:
  assumes "synced ds"
  shows "set (col_names (stack ds)) = set (col_names (train ds))"
  using assms by (auto simp: synced_def stack_def append_names set_col_names)

lemma stack_col:
  assumes "synced ds" and "f \<in> set (col_names (train ds))"
  shows "get_col (stack ds) f = Inr (combined_cells ds f)"
proof -
  let ?te = "set_col (test ds) (target ds) (replicate (nrows (test ds)) (Num (- 1)))"
  from assms(1) have names: "set (col_names (test ds)) = set (col_names (train ds)) - {target ds}"
    by (simp add: synced_def)
  from assms(2) obtain xs where xs: "get_col (train ds) f = Inr xs"
    by (cases "map_of (columns (train ds)) f") (auto simp: map_of_None_names get_col_Some)
  have st: "get_col (stack ds) f = Inr (xs @ col_or_null ?te f)"
    unfolding stack_def using xs by (rule get_col_append)
  show ?thesis
  proof (cases "f = target ds")
    case True
    with names have "map_of (columns (test ds)) f = None" by (simp add: map_of_None_names)
    with xs have c: "cells_of ds f = xs" by (simp add: cells_of_def get_col_Some)
    have "get_col ?te f = Inr (replicate (nrows (test ds)) (Num (- 1)))"
      using True by (simp add: get_set_col)
    then have "col_or_null ?te f = replicate (nrows (test ds)) (Num (- 1))"
      by (simp add: col_or_null_def get_col_Some)
    with st c True show ?thesis by (simp add: combined_cells_def)
  next
    case False
    with names assms(2) have "f \<in> set (col_names (test ds))" by simp
    then obtain ys where ys: "get_col (test ds) f = Inr ys"
      by (cases "map_of (columns (test ds)) f") (auto simp: map_of_None_names get_col_Some)
    with xs have c: "cells_of ds f = xs @ ys" by (simp add: cells_of_def get_col_Some)
    from ys False have "get_col ?te f = Inr ys" by (simp add: get_set_col_other)
    then have "col_or_null ?te f = ys" by (simp add: col_or_null_def get_col_Some)
    with st c False show ?thesis by (simp add: combined_cells_def)
  qed
qed

lemma unstack_complete:
  assumes "target ds \<in> set (col_names combine)"
  shows "\<exists>ds'. unstack combine ds = Inr ds'"
  using assms by (simp add: unstack_def Let_def drop_cols_def tail_rows_names)

lemma labels_completes:
  assumes "synced ds"
  shows "(\<exists>d. labels features ds = Inr d) =
    list_all (\<lambda>f. f \<in> set (col_names (train ds)) \<and> encodable (combined_cells ds f)) features"
proof
  assume "\<exists>d. labels features ds = Inr d"
  then obtain combine where enc: "encode_features features (stack ds) = Inr combine"
    by (auto simp: labels_def split: sum.splits)
  show "list_all (\<lambda>f. f \<in> set (col_names (train ds)) \<and> encodable (combined_cells ds f)) features"
    unfolding list_all_iff
  proof
    fix f assume f: "f \<in> set features"
    from encode_features_encodable[OF enc f] obtain xs where
      xs: "get_col (stack ds) f = Inr xs" and e: "encodable xs" by blast
    from xs have "f \<in> set (col_names (stack ds))" by (rule get_col_names)
    then have t: "f \<in> set (col_names (train ds))" by (simp add: stack_names[OF assms])
    from stack_col[OF assms t] xs e have "encodable (combined_cells ds f)" by simp
    with t show "f \<in> set (col_names (train ds)) \<and> encodable (combined_cells ds f)" by simp
  qed
next
  assume a: "list_all (\<lambda>f. f \<in> set (col_names (train ds)) \<and> encodable (combined_cells ds f)) features"
  have "\<forall>f\<in>set features. \<exists>xs. get_col (stack ds) f = Inr xs \<and> encodable xs"
    using a by (auto simp: list_all_iff stack_col[OF assms])
  then obtain combine where enc: "encode_features features (stack ds) = Inr combine"
    using encode_features_complete by blast
  from assms have "target ds \<in> set (col_names (stack ds))"
    by (simp add: stack_names synced_def)
  then have "target ds \<in> set (col_names combine)"
    by (simp add: encode_features_col_names[OF enc])
  from unstack_complete[OF this] enc show "\<exists>d. labels features ds = Inr d"
    by (simp add: labels_def)
qed

text \<open>
  Claim C3. Let both frames be well formed and the schema invariant hold. A call of
  \<open>labels\<close> completes exactly if every column named in the call is a column of the data
  set whose cells, those of train and test taken together (with the placeholder for the
  target), are uniformly texts or uniformly numbers, the missing value aside. When the call
  completes, then for every column named in it, taking all its cells, those of train
  followed by those of test: every cell holds an integer code afterwards, and any two cells
  hold the same code exactly if they held the same raw value before.
\<close>

theorem labels_consistent:
  assumes "wf_table (train ds)" and "wf_table (test ds)" and "synced ds"
  shows "((\<exists>d. labels features ds = Inr d) =
           list_all (\<lambda>f. f \<in> set (col_names (train ds)) \<and> encodable (combined_cells ds f))
             features) \<and>
         (labels features ds = Inr ds' \<longrightarrow>
           list_all (\<lambda>f. same_pattern (cells_of ds f) (cells_of ds' f) \<and>
                          list_all is_code (cells_of ds' f)) features)"
  using labels_completes[OF assms(3)] labels_pattern[OF assms]
  by (simp add: list_all_iff)

text \<open>
  The theorem on the example with a missing value, at the text column \<open>c\<close> and the
  numeric target \<open>y\<close>: the missing value gets the last code of \<open>c\<close>.
\<close>

theorem labels_consistent_witness:
  "wf_table (train example_missing) \<and> wf_table (test example_missing) \<and>
   synced example_missing \<and>
   list_all (\<lambda>f. f \<in> set (col_names (train example_missing)) \<and>
                  encodable (combined_cells example_missing f)) [''c'', ''y''] \<and>
   labels [''c'', ''y''] example_missing =
     Inr \<lparr>train = \<lparr>nrows = 3, columns =
            [(''c'', [Num 0, Num 0, Num 2]),
             (''y'', [Num 2, Num 1, Num 2])]\<rparr>,
          test = \<lparr>nrows = 2, columns = [(''c'', [Num 0, Num 1])]\<rparr>,
          target = ''y'', data_n_calls = 1, printed = []\<rparr> \<and>
   list_all
     (\<lambda>f. same_pattern (cells_of example_missing f)
             (cells_of \<lparr>train = \<lparr>nrows = 3, columns =
                  [(''c'', [Num 0, Num 0, Num 2]),
                   (''y'', [Num 2, Num 1, Num 2])]\<rparr>,
                test = \<lparr>nrows = 2, columns = [(''c'', [Num 0, Num 1])]\<rparr>,
                target = ''y'', data_n_calls = 1, printed = []\<rparr> f) \<and>
           list_all is_code
             (cells_of \<lparr>train = \<lparr>nrows = 3, columns =
                  [(''c'', [Num 0, Num 0, Num 2]),
                   (''y'', [Num 2, Num 1, Num 2])]\<rparr>,
                test = \<lparr>nrows = 2, columns = [(''c'', [Num 0, Num 1])]\<rparr>,
                target = ''y'', data_n_calls = 1, printed = []\<rparr> f))
     [''c'', ''y'']"
proof -
  have 1: "wf_table (train example_missing)" by code_simp
  have 2: "wf_table (test example_missing)" by code_simp
  have 3: "synced example_missing" by code_simp
  have 4: "labels [''c'', ''y''] example_missing =
     Inr \<lparr>train = \<lparr>nrows = 3, columns =
            [(''c'', [Num 0, Num 0, Num 2]),
             (''y'', [Num 2, Num 1, Num 2])]\<rparr>,
          test = \<lparr>nrows = 2, columns = [(''c'', [Num 0, Num 1])]\<rparr>,
          target = ''y'', data_n_calls = 1, printed = []\<rparr>"
    by code_simp
  note inst = labels_consistent[OF 1 2 3, of "[''c'', ''y'']"]
  from inst[THEN conjunct1] 4
  have 5: "list_all (\<lambda>f. f \<in> set (col_names (train example_missing)) \<and>
                  encodable (combined_cells example_missing f)) [''c'', ''y'']"
    by blast
  from inst[THEN conjunct2] 4
  have 6: "list_all
     (\<lambda>f. same_pattern (cells_of example_missing f)
             (cells_of \<lparr>train = \<lparr>nrows = 3, columns =
                  [(''c'', [Num 0, Num 0, Num 2]),
                   (''y'', [Num 2, Num 1, Num 2])]\<rparr>,
                test = \<lparr>nrows = 2, columns = [(''c'', [Num 0, Num 1])]\<rparr>,
                target = ''y'', data_n_calls = 1, printed = []\<rparr> f) \<and>
           list_all is_code
             (cells_of \<lparr>train = \<lparr>nrows = 3, columns =
                  [(''c'', [Num 0, Num 0, Num 2]),
                   (''y'', [Num 2, Num 1, Num 2])]\<rparr>,
                test = \<lparr>nrows = 2, columns = [(''c'', [Num 0, Num 1])]\<rparr>,
                target = ''y'', data_n_calls = 1, printed = []\<rparr> f))
     [''c'', ''y'']"
    by blast
  from 1 2 3 4 5 6 show ?thesis by blast
qed

end
